theory Spec2Isabelle
  imports Main "HOL-Library.Word"
begin

unbundle bit_operations_syntax

section \<open>The action queue (subscription-queue.js)\<close>

text \<open>
  The four actions of \<^verbatim>\<open>subscription-actions\<close>. A queued item is the object
  \<^verbatim>\<open>{ action, args }\<close>; the subscription builds it with \<^verbatim>\<open>args\<close> undefined for a
  subscribe and for an unsubscribe-by-tag, \<^verbatim>\<open>{ force: Boolean(..) }\<close> for an unsubscribe and
  the patch delta for a patch. The item type is that tagged union, so an item without an
  action (the \<^verbatim>\<open>throw\<close> at the head of \<^verbatim>\<open>enqueue\<close>) and an unsubscribe without
  \<^verbatim>\<open>args\<close> are not values of it.
\<close>

datatype action =
  ACTION_SUBSCRIBE | ACTION_UNSUBSCRIBE | ACTION_MODIFY_PATCH | ACTION_UNSUBSCRIBE_BY_TAG_PENDING

datatype queued_item =
  Subscribe | Unsubscribe bool | ModifyPatch string | UnsubscribeByTagPending

fun action_of :: "queued_item \<Rightarrow> action" where
  "action_of Subscribe = ACTION_SUBSCRIBE"
| "action_of (Unsubscribe f) = ACTION_UNSUBSCRIBE"
| "action_of (ModifyPatch d) = ACTION_MODIFY_PATCH"
| "action_of UnsubscribeByTagPending = ACTION_UNSUBSCRIBE_BY_TAG_PENDING"

text \<open>\<^verbatim>\<open>item.args.force\<close>; the source reads it of unsubscribe items only.\<close>

fun args_force :: "queued_item \<Rightarrow> bool" where
  "args_force (Unsubscribe f) = f"
| "args_force _ = False"

text \<open>\<^verbatim>\<open>prevItem.args.force = true\<close>\<close>

fun set_force_true :: "queued_item \<Rightarrow> queued_item" where
  "set_force_true (Unsubscribe f) = Unsubscribe True"
| "set_force_true i = i"

text \<open>
  \<^verbatim>\<open>this.items\<close> is a list, head of the queue first. \<^verbatim>\<open>getLastItem\<close> is \<^verbatim>\<open>last\<close>,
  read only of a non-empty list; \<^verbatim>\<open>splice(-1)\<close> is \<^verbatim>\<open>butlast\<close>.
\<close>

function enqueue :: "queued_item \<Rightarrow> queued_item list \<Rightarrow> queued_item list" where
  "enqueue queuedItem items =
     (if items = [] then [queuedItem]
      else if action_of queuedItem = action_of (last items)
              \<and> action_of queuedItem \<noteq> ACTION_MODIFY_PATCH
      then (if action_of queuedItem = ACTION_UNSUBSCRIBE
               \<and> args_force queuedItem \<and> \<not> args_force (last items)
            then butlast items @ [set_force_true (last items)]
            else items)
      else if (action_of (last items) = ACTION_UNSUBSCRIBE
                 \<and> action_of queuedItem = ACTION_SUBSCRIBE
                 \<and> \<not> args_force (last items))
              \<or> (action_of (last items) = ACTION_SUBSCRIBE
                 \<and> (action_of queuedItem = ACTION_UNSUBSCRIBE
                    \<or> action_of queuedItem = ACTION_UNSUBSCRIBE_BY_TAG_PENDING))
              \<or> (action_of (last items) = ACTION_MODIFY_PATCH
                 \<and> ((action_of queuedItem = ACTION_UNSUBSCRIBE \<and> args_force queuedItem)
                    \<or> action_of queuedItem = ACTION_UNSUBSCRIBE_BY_TAG_PENDING))
              \<or> (action_of (last items) = ACTION_UNSUBSCRIBE
                 \<and> action_of queuedItem = ACTION_UNSUBSCRIBE_BY_TAG_PENDING)
      then enqueue queuedItem (butlast items)
      else items @ [queuedItem])"
  by pat_completeness auto
termination
  by (relation "measure (\<lambda>(queuedItem, items). length items)") auto

declare enqueue.simps [simp del]

text \<open>The loop of \<^verbatim>\<open>clearPatches\<close>, with its two variables \<^verbatim>\<open>newItems\<close> and
  \<^verbatim>\<open>reachedNonPatchSubscribe\<close>.\<close>

fun clearPatches_loop ::
  "queued_item list \<Rightarrow> queued_item list \<Rightarrow> bool \<Rightarrow> queued_item list" where
  "clearPatches_loop [] newItems reached = newItems"
| "clearPatches_loop (item # rest) newItems reached =
     (if \<not> reached \<and> action_of item \<noteq> ACTION_SUBSCRIBE
         \<and> action_of item \<noteq> ACTION_MODIFY_PATCH
      then clearPatches_loop rest (newItems @ [item]) True
      else clearPatches_loop rest newItems reached)"

definition clearPatches :: "queued_item list \<Rightarrow> queued_item list" where
  "clearPatches items = clearPatches_loop items [] False"

text \<open>\<^verbatim>\<open>peekAction\<close>: \<^verbatim>\<open>undefined\<close> of an empty queue is \<open>None\<close>.\<close>

definition peekAction :: "queued_item list \<Rightarrow> action option" where
  "peekAction items = (case items of [] \<Rightarrow> None | item # rest \<Rightarrow> Some (action_of item))"

text \<open>
  The loop of \<^verbatim>\<open>dequeue\<close>, \<^verbatim>\<open>for (i = length - 1; i >= 0; i--)\<close>: the second argument
  is \<open>i + 1\<close>, the result the index of the first hit from the end.
\<close>

fun dequeue_scan :: "queued_item list \<Rightarrow> nat \<Rightarrow> nat option" where
  "dequeue_scan items 0 = None"
| "dequeue_scan items (Suc i) =
     (if action_of (items ! i) = ACTION_UNSUBSCRIBE
         \<or> action_of (items ! i) = ACTION_UNSUBSCRIBE_BY_TAG_PENDING
      then Some i
      else dequeue_scan items i)"

text \<open>\<^verbatim>\<open>dequeue\<close> returns the item (\<^verbatim>\<open>undefined\<close> is \<open>None\<close>) and leaves the new
  \<^verbatim>\<open>items\<close>.\<close>

definition dequeue :: "queued_item list \<Rightarrow> queued_item option \<times> queued_item list" where
  "dequeue items =
     (case items of
        [] \<Rightarrow> (None, [])
      | nextItem # rest \<Rightarrow>
          (if rest = [] then (Some nextItem, [])
           else (case dequeue_scan rest (length rest) of
                   Some i \<Rightarrow> (Some (rest ! i), drop (Suc i) rest)
                 | None \<Rightarrow> (Some nextItem, rest))))"

definition isEmpty :: "queued_item list \<Rightarrow> bool" where
  "isEmpty items = (length items = 0)"

section \<open>JavaScript values, objects and the object store\<close>

text \<open>
  A state or an action constant is a number; a property that was never assigned reads as
  \<^verbatim>\<open>undefined\<close>, here \<open>None\<close>. The bitwise operators convert their operands with
  ToInt32, which sends \<^verbatim>\<open>undefined\<close> to 0.
\<close>

type_synonym jsnum = "32 word option"

fun ToInt32 :: "jsnum \<Rightarrow> 32 word" where
  "ToInt32 None = 0"
| "ToInt32 (Some w) = w"

datatype jsvalue =
  JUndefined | JNull | JBool bool | JNum int | JStr string | JStrings "string list"
  | JOpaque string

fun truthy :: "jsvalue \<Rightarrow> bool" where
  "truthy JUndefined = False"
| "truthy JNull = False"
| "truthy (JBool b) = b"
| "truthy (JNum n) = (n \<noteq> 0)"
| "truthy (JStr s) = (s \<noteq> [])"
| "truthy (JStrings l) = True"
| "truthy (JOpaque s) = True"

definition digit_char :: "nat \<Rightarrow> char" where
  "digit_char d = ''0123456789'' ! d"

fun string_of_nat :: "nat \<Rightarrow> string" where
  "string_of_nat n =
     (if n < 10 then [digit_char n] else string_of_nat (n div 10) @ [digit_char (n mod 10)])"

declare string_of_nat.simps [simp del]

fun join_comma :: "string list \<Rightarrow> string" where
  "join_comma [] = []"
| "join_comma [x] = x"
| "join_comma (x # y # ys) = x @ '','' @ join_comma (y # ys)"

text \<open>String concatenation \<^verbatim>\<open>'..' + v\<close> converts \<open>v\<close> with ToString.\<close>

fun ToString :: "jsvalue \<Rightarrow> string" where
  "ToString JUndefined = ''undefined''"
| "ToString JNull = ''null''"
| "ToString (JBool b) = (if b then ''true'' else ''false'')"
| "ToString (JNum n) = (if n < 0 then ''-'' @ string_of_nat (nat (- n)) else string_of_nat (nat n))"
| "ToString (JStr s) = s"
| "ToString (JStrings l) = join_comma l"
| "ToString (JOpaque s) = ''[object Object]''"

text \<open>An object is its list of own properties, in insertion order.\<close>

type_synonym jsobject = "(string \<times> jsvalue) list"

definition get_prop :: "jsobject \<Rightarrow> string \<Rightarrow> jsvalue" where
  "get_prop obj k = (case map_of obj k of None \<Rightarrow> JUndefined | Some v \<Rightarrow> v)"

definition hasOwnProperty :: "jsobject \<Rightarrow> string \<Rightarrow> bool" where
  "hasOwnProperty obj k = (map_of obj k \<noteq> None)"

fun set_prop :: "string \<Rightarrow> jsvalue \<Rightarrow> jsobject \<Rightarrow> jsobject" where
  "set_prop k v [] = [(k, v)]"
| "set_prop k v (p # ps) = (if fst p = k then (k, v) # ps else p # set_prop k v ps)"

definition delete_prop :: "string \<Rightarrow> jsobject \<Rightarrow> jsobject" where
  "delete_prop k obj = filter (\<lambda>p. fst p \<noteq> k) obj"

text \<open>
  Modelled from the spec: \<^verbatim>\<open>extend\<close> of \<^verbatim>\<open>utils/object\<close>, which is not among the
  sources. The POST body is "\<^verbatim>\<open>subscription_args\<close> \<open>\<union>\<close> {ContextId, ReferenceId,
  KnownSchemas}", built "from a shallow copy": \<^verbatim>\<open>extend(target, src1, src2, ..)\<close> assigns
  every own property of each source to the target, later sources winning, and returns the
  target. It is \<open>extend_obj\<close> here.
\<close>

definition assign_props :: "jsobject \<Rightarrow> jsobject \<Rightarrow> jsobject" where
  "assign_props target src = fold (\<lambda>p obj. set_prop (fst p) (snd p) obj) src target"

definition extend_obj :: "jsobject \<Rightarrow> jsobject list \<Rightarrow> jsobject" where
  "extend_obj target srcs = fold (\<lambda>src obj. assign_props obj src) srcs target"

section \<open>The parser (external)\<close>

text \<open>
  Modelled from the spec: \<^verbatim>\<open>ParserFacade\<close> of \<^verbatim>\<open>parser/parser-facade\<close>, which is not among
  the sources. It "maps a MIME type to a parser object exposing \<^verbatim>\<open>parse\<close>, \<^verbatim>\<open>addSchema\<close>,
  \<^verbatim>\<open>getSchemaNames\<close>, \<^verbatim>\<open>getSchemaName\<close>"; parser instances are per subscription, and "unknown
  formats cause parser lookup to fall back to the default", which is JSON. A parser is its
  format, the schemas registered so far and the name of the last one. What \<^verbatim>\<open>parse\<close>
  computes is left open: it is an argument \<open>parse\<close> of the functions that decode a message,
  with \<open>None\<close> for a thrown error.
\<close>

definition FORMAT_PROTOBUF :: string where
  "FORMAT_PROTOBUF = ''application/x-protobuf''"

definition FORMAT_JSON :: string where
  "FORMAT_JSON = ''application/json''"

definition ERROR_UNSUPPORTED_FORMAT :: string where
  "ERROR_UNSUPPORTED_FORMAT = ''UnsupportedSubscriptionFormat''"

record parser =
  parserFormat :: string
  parserSchemas :: "(string \<times> string) list"
  parserSchemaName :: "string option"

definition getDefaultFormat :: string where
  "getDefaultFormat = FORMAT_JSON"

definition getParser :: "jsvalue \<Rightarrow> string \<Rightarrow> string \<Rightarrow> parser" where
  "getParser format servicePath url =
     \<lparr>parserFormat = (if format = JStr FORMAT_PROTOBUF then FORMAT_PROTOBUF else getDefaultFormat),
      parserSchemas = [], parserSchemaName = None\<rparr>"

definition addSchema :: "string \<Rightarrow> string \<Rightarrow> parser \<Rightarrow> parser" where
  "addSchema schemaData name p =
     p\<lparr>parserSchemas := parserSchemas p @ [(name, schemaData)], parserSchemaName := Some name\<rparr>"

definition getSchemaNames :: "parser \<Rightarrow> jsvalue" where
  "getSchemaNames p = JStrings (map fst (parserSchemas p))"

definition getSchemaName :: "parser \<Rightarrow> string option" where
  "getSchemaName p = parserSchemaName p"

type_synonym parse_fn = "parser \<Rightarrow> jsvalue \<Rightarrow> string option \<Rightarrow> jsvalue option"

section \<open>The subscription (subscription.js)\<close>

subsection \<open>Constants\<close>

text \<open>
  Modelled from the spec: the values of the action constants of \<^verbatim>\<open>subscription-actions\<close>,
  which is not among the sources. The source tests \<^verbatim>\<open>peekAction() & ACTION_UNSUBSCRIBE\<close>,
  and the spec reads that test as "the head queued action is UNSUBSCRIBE": the four
  constants are distinct single bits.
\<close>

fun action_code :: "action \<Rightarrow> 32 word" where
  "action_code ACTION_SUBSCRIBE = 0x1"
| "action_code ACTION_UNSUBSCRIBE = 0x2"
| "action_code ACTION_MODIFY_PATCH = 0x4"
| "action_code ACTION_UNSUBSCRIBE_BY_TAG_PENDING = 0x8"

definition UPDATE_TYPE_SNAPSHOT :: nat where
  "UPDATE_TYPE_SNAPSHOT = 1"

definition UPDATE_TYPE_DELTA :: nat where
  "UPDATE_TYPE_DELTA = 2"

definition STATE_SUBSCRIBE_REQUESTED :: jsnum where
  "STATE_SUBSCRIBE_REQUESTED = Some 0x1"

definition STATE_SUBSCRIBED :: jsnum where
  "STATE_SUBSCRIBED = Some 0x2"

definition STATE_UNSUBSCRIBE_REQUESTED :: jsnum where
  "STATE_UNSUBSCRIBE_REQUESTED = Some 0x4"

definition STATE_UNSUBSCRIBED :: jsnum where
  "STATE_UNSUBSCRIBED = Some 0x8"

definition STATE_PATCH_REQUESTED :: jsnum where
  "STATE_PATCH_REQUESTED = Some 0x10"

text \<open>
  The prototype assigns the five states above and no other: the source has no
  \<^verbatim>\<open>Subscription.prototype.STATE_READY_FOR_UNSUBSCRIBE_BY_TAG = ..\<close>, so that every read
  of the property, in \<^verbatim>\<open>TRANSITIONING_STATES\<close>, \<^verbatim>\<open>unsubscribeByTagPending\<close>, \<^verbatim>\<open>reset\<close> and
  \<^verbatim>\<open>isReadyForUnsubscribeByTag\<close>, yields \<^verbatim>\<open>undefined\<close>.
\<close>

definition STATE_READY_FOR_UNSUBSCRIBE_BY_TAG :: jsnum where
  "STATE_READY_FOR_UNSUBSCRIBE_BY_TAG = None"

definition TRANSITIONING_STATES :: "32 word" where
  "TRANSITIONING_STATES =
     ToInt32 STATE_SUBSCRIBE_REQUESTED OR ToInt32 STATE_UNSUBSCRIBE_REQUESTED
       OR ToInt32 STATE_PATCH_REQUESTED OR ToInt32 STATE_READY_FOR_UNSUBSCRIBE_BY_TAG"

definition DEFAULT_REFRESH_RATE_MS :: int where
  "DEFAULT_REFRESH_RATE_MS = 1000"

definition MIN_REFRESH_RATE_MS :: int where
  "MIN_REFRESH_RATE_MS = 100"

definition DUPLICATE_KEY_MESSAGE :: string where
  "DUPLICATE_KEY_MESSAGE = ''Subscription Key (Streaming Session, Reference Id) already in use''"

subsection \<open>Responses, effects and the state\<close>

text \<open>The payload \<^verbatim>\<open>result.response\<close> of a successful subscribe.\<close>

record subscribe_response =
  InactivityTimeout :: "nat option"
  Snapshot :: jsvalue
  Schema :: "string option"
  SchemaName :: "string option"

text \<open>The rejection of a request: \<^verbatim>\<open>response\<close> itself and \<^verbatim>\<open>response.response\<close> may be
  missing.\<close>

record error_body =
  Message :: "string option"
  ErrorCode :: "string option"

record error_response =
  isNetworkError :: bool
  response :: "error_body option"

record modify_options =
  isPatch :: bool
  patchArgsDelta :: "string option"

datatype level = LogDebug | LogInfo | LogWarn | LogError

text \<open>
  What the subscription does to the outside, in order: the requests it hands to the
  transport (service path, url, then the identifiers and the body), the callbacks it
  invokes, the log entries and the timer calls. A state-change observer is a number, its
  identity.
\<close>

datatype event =
    Post string string jsobject "jsobject option"
  | Delete string string "string option" "string option"
  | Patch string string "string option" "string option" string
  | StateChanged nat jsnum
  | OnUpdate jsvalue nat
  | OnUpdateMessage jsobject nat
  | OnError "error_response option"
  | OnSubscriptionCreated
  | OnQueueEmpty
  | OnNetworkError
  | Log level string
  | SetTimeout nat
  | ClearTimeout

datatype error = DisposedError | PatchArgsDeltaError | TypeError

text \<open>
  The fields of the subscription, then what it shares with its surroundings: the module's
  \<^verbatim>\<open>referenceIdCounter\<close>, the wall clock read by \<^verbatim>\<open>new Date().getTime()\<close>, the store of
  the objects that are reached through references (\<^verbatim>\<open>subscriptionData\<close> is the caller's
  object, the POST body a new one), and the trace of effects. An optional callback is the
  flag of its presence.
\<close>

record subscription =
  streamingContextId :: string
  currentStreamingContextId :: "string option"
  referenceId :: "string option"
  queue :: "queued_item list"
  parser :: parser
  onStateChangedCallbacks :: "nat list"
  servicePath :: string
  url :: string
  onSubscriptionCreated :: bool
  subscriptionData :: nat
  onUpdate :: bool
  onError :: bool
  onQueueEmpty :: bool
  headers :: "jsobject option"
  onNetworkError :: bool
  connectionAvailable :: bool
  currentState :: jsnum
  updatesBeforeSubscribed :: "jsobject list option"
  networkErrorSubscribingTimer :: bool
  inactivityTimeout :: "nat option"
  latestActivity :: "nat option"
  schemaName :: "string option"
  isDisposed :: bool
  referenceIdCounter :: nat
  clock :: nat
  objects :: "nat \<Rightarrow> jsobject"
  nextObject :: nat
  trace :: "event list"

text \<open>A call that returns, or throws after the changes it has made so far.\<close>

datatype outcome = Returned subscription | Threw error subscription

fun state_of :: "outcome \<Rightarrow> subscription" where
  "state_of (Returned s) = s"
| "state_of (Threw e s) = s"

definition emit :: "event \<Rightarrow> subscription \<Rightarrow> subscription" where
  "emit e s = s\<lparr>trace := trace s @ [e]\<rparr>"

definition log :: "level \<Rightarrow> string \<Rightarrow> subscription \<Rightarrow> subscription" where
  "log l m s = emit (Log l m) s"

definition isTransitioning :: "subscription \<Rightarrow> bool" where
  "isTransitioning s = (TRANSITIONING_STATES AND ToInt32 (currentState s) \<noteq> 0)"

text \<open>\<^verbatim>\<open>this.queue.peekAction() & ACTION_UNSUBSCRIBE\<close>, as a condition.\<close>

definition peekAction_and_UNSUBSCRIBE :: "queued_item list \<Rightarrow> bool" where
  "peekAction_and_UNSUBSCRIBE items =
     (ToInt32 (map_option action_code (peekAction items)) AND action_code ACTION_UNSUBSCRIBE \<noteq> 0)"

subsection \<open>Local methods\<close>

definition getSubscribeUrl :: "string \<Rightarrow> jsobject \<Rightarrow> string" where
  "getSubscribeUrl u subscriptionData' =
     (if \<not> truthy (get_prop subscriptionData' ''Top'') then u
      else u @ ''?$top='' @ ToString (get_prop subscriptionData' ''Top''))"

definition normalizeSubscribeData :: "jsobject \<Rightarrow> jsobject" where
  "normalizeSubscribeData data =
     (if hasOwnProperty data ''Top'' then delete_prop ''Top'' data else data)"

definition setState :: "jsnum \<Rightarrow> subscription \<Rightarrow> subscription" where
  "setState state s =
     s\<lparr>currentState := state,
       trace := trace s @ map (\<lambda>callback. StateChanged callback state) (onStateChangedCallbacks s)\<rparr>"

definition onActivity :: "subscription \<Rightarrow> subscription" where
  "onActivity s = s\<lparr>latestActivity := Some (clock s)\<rparr>"

text \<open>
  \<^verbatim>\<open>subscribe\<close>. The body \<^verbatim>\<open>data\<close> is a new object of the store, filled by \<^verbatim>\<open>extend\<close>;
  \<^verbatim>\<open>normalizeSubscribeData(data)\<close> then changes the object at that reference, and the
  transport is handed the url and the body as they are at the call.
\<close>

definition subscribe :: "subscription \<Rightarrow> subscription" where
  "subscribe s =
     (let capturedId = string_of_nat (referenceIdCounter s);
          s1 = s\<lparr>referenceIdCounter := referenceIdCounter s + 1,
                 referenceId := Some capturedId,
                 updatesBeforeSubscribed := None\<rparr>;
          subscribeUrl = getSubscribeUrl (url s1) (objects s1 (subscriptionData s1));
          data = nextObject s1;
          s2 = s1\<lparr>objects := (objects s1)
                   (data := extend_obj []
                      [objects s1 (subscriptionData s1),
                       [(''ContextId'', JStr (streamingContextId s1)),
                        (''ReferenceId'', JStr capturedId),
                        (''KnownSchemas'', getSchemaNames (parser s1))]]),
                 nextObject := nextObject s1 + 1\<rparr>;
          optionsHeaders = map_option (\<lambda>h. extend_obj [] [h]) (headers s2);
          s3 = s2\<lparr>objects := (objects s2) (data := normalizeSubscribeData (objects s2 data))\<rparr>;
          s4 = log LogDebug ''Posting to create a subscription'' s3;
          s5 = setState STATE_SUBSCRIBE_REQUESTED s4;
          s6 = s5\<lparr>currentStreamingContextId := Some (streamingContextId s5)\<rparr>
      in emit (Post (servicePath s6) subscribeUrl (objects s6 data) optionsHeaders) s6)"

definition unsubscribe :: "subscription \<Rightarrow> subscription" where
  "unsubscribe s =
     (let s1 = setState STATE_UNSUBSCRIBE_REQUESTED s
      in emit (Delete (servicePath s1) (url s1 @ ''/{contextId}/{referenceId}'')
                 (currentStreamingContextId s1) (referenceId s1)) s1)"

definition modifyPatch :: "string \<Rightarrow> subscription \<Rightarrow> subscription" where
  "modifyPatch args s =
     (let s1 = setState STATE_PATCH_REQUESTED s
      in emit (Patch (servicePath s1) (url s1 @ ''/{contextId}/{referenceId}'')
                 (currentStreamingContextId s1) (referenceId s1) args) s1)"

definition unsubscribeByTagPending :: "subscription \<Rightarrow> subscription" where
  "unsubscribeByTagPending s = setState STATE_READY_FOR_UNSUBSCRIBE_BY_TAG s"

text \<open>
  The \<^verbatim>\<open>switch\<close> of \<^verbatim>\<open>performAction\<close> on the action and then on the state; its
  \<^verbatim>\<open>default: throw\<close> is for an action outside the four.
\<close>

definition performAction_switch :: "queued_item \<Rightarrow> subscription \<Rightarrow> subscription" where
  "performAction_switch queuedAction s =
     (case queuedAction of
        Subscribe \<Rightarrow>
          (if currentState s = STATE_SUBSCRIBED then s
           else if currentState s = STATE_UNSUBSCRIBED
           then subscribe (s\<lparr>queue := clearPatches (queue s)\<rparr>)
           else log LogError ''Unanticipated state in performAction Subscribe'' s)
      | ModifyPatch args \<Rightarrow>
          (if currentState s = STATE_SUBSCRIBED then modifyPatch args s
           else log LogError ''Unanticipated state in performAction Patch'' s)
      | Unsubscribe force \<Rightarrow>
          (if currentState s = STATE_SUBSCRIBED then unsubscribe s
           else if currentState s = STATE_UNSUBSCRIBED then s
           else log LogError ''Unanticipated state in performAction Unsubscribe'' s)
      | UnsubscribeByTagPending \<Rightarrow>
          (if currentState s = STATE_SUBSCRIBED \<or> currentState s = STATE_UNSUBSCRIBED
           then unsubscribeByTagPending s
           else log LogError ''Unanticipated state in performAction UnsubscribeByTagPending'' s))"

text \<open>\<^verbatim>\<open>performAction\<close> up to its recursive call: the switch, then \<^verbatim>\<open>onQueueEmpty\<close>.\<close>

definition performAction_step :: "queued_item \<Rightarrow> bool \<Rightarrow> subscription \<Rightarrow> subscription" where
  "performAction_step queuedAction isLastQueuedAction s =
     (let s1 = performAction_switch queuedAction s
      in if onQueueEmpty s1 \<and> isLastQueuedAction then emit OnQueueEmpty s1 else s1)"

text \<open>None of the steps adds to the queue, and \<^verbatim>\<open>dequeue\<close> shortens it: the recursion of
  \<^verbatim>\<open>performAction\<close> ends.\<close>

lemma queue_emit: "queue (emit e s) = queue s"
  by (simp add: emit_def)

lemma queue_log: "queue (log l m s) = queue s"
  by (simp add: log_def emit_def)

lemma queue_setState: "queue (setState st s) = queue s"
  by (simp add: setState_def)

lemma queue_subscribe: "queue (subscribe s) = queue s"
  by (simp add: subscribe_def Let_def queue_emit queue_log queue_setState)

lemma queue_unsubscribe: "queue (unsubscribe s) = queue s"
  by (simp add: unsubscribe_def Let_def queue_emit queue_setState)

lemma queue_modifyPatch: "queue (modifyPatch a s) = queue s"
  by (simp add: modifyPatch_def Let_def queue_emit queue_setState)

lemma queue_unsubscribeByTagPending: "queue (unsubscribeByTagPending s) = queue s"
  by (simp add: unsubscribeByTagPending_def queue_setState)

lemma length_clearPatches_loop:
  "length (clearPatches_loop items newItems reached) \<le> length newItems + length items"
proof (induction items arbitrary: newItems reached)
  case Nil
  then show ?case by simp
next
  case (Cons a items)
  show ?case
    using Cons.IH [of "newItems @ [a]" True] Cons.IH [of newItems reached] by auto
qed

lemma length_clearPatches: "length (clearPatches items) \<le> length items"
  using length_clearPatches_loop [of items "[]" False] by (simp add: clearPatches_def)

lemma length_queue_performAction_switch:
  "length (queue (performAction_switch queuedAction s)) \<le> length (queue s)"
  by (cases queuedAction)
     (simp_all add: performAction_switch_def queue_subscribe queue_unsubscribe queue_modifyPatch
        queue_unsubscribeByTagPending queue_log length_clearPatches)

lemma length_queue_performAction_step:
  "length (queue (performAction_step queuedAction isLast s)) \<le> length (queue s)"
  using length_queue_performAction_switch [of queuedAction s]
  by (simp add: performAction_step_def Let_def queue_emit)

lemma dequeue_shorter:
  "dequeue items = (Some item, items') \<Longrightarrow> length items' < length items"
  by (auto simp: dequeue_def split: list.splits if_splits option.splits)

text \<open>\<^verbatim>\<open>dequeue\<close> of a queue that is not empty returns an item: where the source calls it
  behind \<^verbatim>\<open>!this.queue.isEmpty()\<close>, the branch for \<^verbatim>\<open>undefined\<close> below is never taken.\<close>

lemma dequeue_nonempty:
  "\<not> isEmpty items \<Longrightarrow> \<exists>item items'. dequeue items = (Some item, items')"
  by (cases items) (auto simp: isEmpty_def dequeue_def split: option.split)

function performAction :: "queued_item \<Rightarrow> bool \<Rightarrow> subscription \<Rightarrow> subscription" where
  "performAction queuedAction isLastQueuedAction s =
     (let s1 = performAction_step queuedAction isLastQueuedAction s
      in if \<not> isEmpty (queue s1) \<and> \<not> isTransitioning s1
         then (case dequeue (queue s1) of
                 (Some nextAction, items) \<Rightarrow>
                   performAction nextAction (isEmpty items) (s1\<lparr>queue := items\<rparr>)
               | (None, items) \<Rightarrow> s1)
         else s1)"
  by pat_completeness auto
termination
proof (relation "measure (\<lambda>(queuedAction, isLastQueuedAction, s). length (queue s))")
  show "wf (measure (\<lambda>(queuedAction, isLastQueuedAction, s). length (queue s)))"
    by simp
next
  fix queuedAction isLastQueuedAction s s1 x1 items nextAction
  assume "s1 = performAction_step queuedAction isLastQueuedAction s"
    and "(x1, items) = dequeue (queue s1)" and "x1 = Some nextAction"
  then have "length items < length (queue s1)" "length (queue s1) \<le> length (queue s)"
    using dequeue_shorter [of "queue s1" nextAction items]
      length_queue_performAction_step [of queuedAction isLastQueuedAction s]
    by simp_all
  then show "((nextAction, isEmpty items, s1\<lparr>queue := items\<rparr>), queuedAction, isLastQueuedAction, s)
      \<in> measure (\<lambda>(queuedAction, isLastQueuedAction, s). length (queue s))"
    by simp
qed

declare performAction.simps [simp del]

definition tryPerformAction :: "queued_item \<Rightarrow> subscription \<Rightarrow> subscription" where
  "tryPerformAction queuedAction s =
     (let s1 = (if networkErrorSubscribingTimer s
                then emit ClearTimeout (s\<lparr>networkErrorSubscribingTimer := False\<rparr>)
                else s)
      in if \<not> connectionAvailable s1 \<or> isTransitioning s1
         then s1\<lparr>queue := enqueue queuedAction (queue s1)\<rparr>
         else performAction queuedAction False s1)"

definition onReadyToPerformNextAction :: "subscription \<Rightarrow> subscription" where
  "onReadyToPerformNextAction s =
     (if \<not> connectionAvailable s \<or> isEmpty (queue s) then s
      else (case dequeue (queue s) of
              (Some nextAction, items) \<Rightarrow>
                performAction nextAction (isEmpty items) (s\<lparr>queue := items\<rparr>)
            | (None, items) \<Rightarrow> s))"

subsection \<open>Exported methods\<close>

definition onSubscribe :: "subscription \<Rightarrow> outcome" where
  "onSubscribe s =
     (if isDisposed s then Threw DisposedError s
      else Returned (tryPerformAction Subscribe s))"

definition onUnsubscribe :: "bool \<Rightarrow> subscription \<Rightarrow> subscription" where
  "onUnsubscribe forceUnsubscribe s =
     (let s1 = (if isDisposed s
                then log LogWarn ''Unsubscribing a disposed subscription - this is not necessary'' s
                else s)
      in tryPerformAction (Unsubscribe forceUnsubscribe) s1)"

definition onModify :: "jsvalue \<Rightarrow> modify_options option \<Rightarrow> subscription \<Rightarrow> outcome" where
  "onModify newArgs options s =
     (if isDisposed s then Threw DisposedError s
      else
        (let s1 = s\<lparr>objects := (objects s)
                     (subscriptionData s :=
                        set_prop ''Arguments'' newArgs (objects s (subscriptionData s)))\<rparr>
         in case options of
              None \<Rightarrow> onSubscribe (onUnsubscribe True s1)
            | Some opts \<Rightarrow>
                (if isPatch opts
                 then (case patchArgsDelta opts of
                         None \<Rightarrow> Threw PatchArgsDeltaError s1
                       | Some delta \<Rightarrow> Returned (tryPerformAction (ModifyPatch delta) s1))
                 else onSubscribe (onUnsubscribe True s1))))"

definition dispose :: "subscription \<Rightarrow> subscription" where
  "dispose s = s\<lparr>isDisposed := True\<rparr>"

definition reset :: "subscription \<Rightarrow> outcome" where
  "reset s =
     (if currentState s = STATE_UNSUBSCRIBED \<or> currentState s = STATE_UNSUBSCRIBE_REQUESTED
      then Returned s
      else if currentState s = STATE_SUBSCRIBE_REQUESTED \<or> currentState s = STATE_SUBSCRIBED
      then (if peekAction_and_UNSUBSCRIBE (queue s) then Returned s
            else onSubscribe (onUnsubscribe True s))
      else if currentState s = STATE_PATCH_REQUESTED
      then onSubscribe (onUnsubscribe True (setState STATE_SUBSCRIBED s))
      else if currentState s = STATE_READY_FOR_UNSUBSCRIBE_BY_TAG
      then Returned s
      else Returned (log LogError ''Reset was called but subscription is in an unknown state'' s))"

definition processUpdate :: "parse_fn \<Rightarrow> jsobject \<Rightarrow> nat \<Rightarrow> subscription \<Rightarrow> outcome" where
  "processUpdate parse message type s =
     (case parse (parser s) (get_prop message ''Data'') (schemaName s) of
        None \<Rightarrow> reset (log LogError ''Error occurred parsing Data'' s)
      | Some parsed \<Rightarrow>
          (if onUpdate s
           then Returned (emit (OnUpdateMessage (extend_obj [] [message, [(''Data'', parsed)]]) type) s)
           else Threw TypeError s))"

definition processSnapshot :: "subscribe_response \<Rightarrow> subscription \<Rightarrow> outcome" where
  "processSnapshot resp s =
     (let s1 = (case (Schema resp, SchemaName resp) of
                  (Some schemaData, Some name) \<Rightarrow>
                    (if schemaData \<noteq> [] \<and> name \<noteq> []
                     then s\<lparr>schemaName := Some name,
                            parser := addSchema schemaData name (parser s)\<rparr>
                     else s)
                | _ \<Rightarrow> s);
          s2 = (if SchemaName resp = None \<or> SchemaName resp = Some []
                then (let s' = s1\<lparr>schemaName := getSchemaName (parser s1)\<rparr>
                      in if get_prop (objects s' (subscriptionData s')) ''Format'' = JStr FORMAT_PROTOBUF
                            \<and> (schemaName s' = None \<or> schemaName s' = Some [])
                         then s'\<lparr>parser := getParser (JStr getDefaultFormat) (servicePath s') (url s')\<rparr>
                         else s')
                else s1)
      in if onUpdate s2
         then Returned (emit (OnUpdate (Snapshot resp) UPDATE_TYPE_SNAPSHOT) s2)
         else Threw TypeError s2)"

definition onStreamingData ::
  "parse_fn \<Rightarrow> jsobject \<Rightarrow> subscription \<Rightarrow> bool option \<times> subscription" where
  "onStreamingData parse message s =
     (let s1 = onActivity s
      in if currentState s1 = STATE_UNSUBSCRIBE_REQUESTED then (None, s1)
         else if currentState s1 = STATE_UNSUBSCRIBED then (Some False, s1)
         else if currentState s1 = STATE_SUBSCRIBE_REQUESTED
         then (None, s1\<lparr>updatesBeforeSubscribed :=
                 Some ((case updatesBeforeSubscribed s1 of None \<Rightarrow> [] | Some updates \<Rightarrow> updates)
                       @ [message])\<rparr>)
         else
           (let s2 = (if currentState s1 = STATE_SUBSCRIBED \<or> currentState s1 = STATE_PATCH_REQUESTED
                      then s1
                      else log LogError ''Unanticipated state onStreamingData'' s1)
            in (None,
                case processUpdate parse message UPDATE_TYPE_DELTA s2 of
                  Returned s3 \<Rightarrow> s3
                | Threw e s3 \<Rightarrow>
                    log LogError ''Exception occurred in streaming delta update callback'' s3)))"

definition onHeartbeat :: "subscription \<Rightarrow> subscription" where
  "onHeartbeat s =
     onActivity
       (if currentState s = STATE_SUBSCRIBE_REQUESTED
        then log LogDebug ''Received heartbeat for a subscription we havent subscribed to yet'' s
        else s)"

definition onConnectionUnavailable :: "subscription \<Rightarrow> subscription" where
  "onConnectionUnavailable s =
     (let s1 = s\<lparr>connectionAvailable := False\<rparr>
      in if networkErrorSubscribingTimer s1
         then tryPerformAction Subscribe
                (emit ClearTimeout (s1\<lparr>networkErrorSubscribingTimer := False\<rparr>))
         else s1)"

definition onConnectionAvailable :: "subscription \<Rightarrow> subscription" where
  "onConnectionAvailable s =
     (let s1 = s\<lparr>connectionAvailable := True\<rparr>
      in if \<not> isTransitioning s1 then onReadyToPerformNextAction s1 else s1)"

definition onUnsubscribeByTagPending :: "subscription \<Rightarrow> subscription" where
  "onUnsubscribeByTagPending s = tryPerformAction UnsubscribeByTagPending s"

definition onUnsubscribeByTagComplete :: "subscription \<Rightarrow> subscription" where
  "onUnsubscribeByTagComplete s = onReadyToPerformNextAction (setState STATE_UNSUBSCRIBED s)"

definition isReadyForUnsubscribeByTag :: "subscription \<Rightarrow> bool" where
  "isReadyForUnsubscribeByTag s = (currentState s = STATE_READY_FOR_UNSUBSCRIBE_BY_TAG)"

definition addStateChangedCallback :: "nat \<Rightarrow> subscription \<Rightarrow> subscription" where
  "addStateChangedCallback callback s =
     (if callback \<notin> set (onStateChangedCallbacks s)
      then s\<lparr>onStateChangedCallbacks := onStateChangedCallbacks s @ [callback]\<rparr>
      else s)"

definition removeStateChangedCallback :: "nat \<Rightarrow> subscription \<Rightarrow> subscription" where
  "removeStateChangedCallback callback s =
     s\<lparr>onStateChangedCallbacks := remove1 callback (onStateChangedCallbacks s)\<rparr>"

subsection \<open>Response handlers\<close>

text \<open>
  The loop of \<^verbatim>\<open>onSubscribeSuccess\<close> over \<^verbatim>\<open>this.updatesBeforeSubscribed\<close>. It runs in
  state SUBSCRIBED, where \<^verbatim>\<open>onStreamingData\<close> neither appends to the buffer nor reaches a
  subscribe that would clear it (\<open>replayUpdates_replaying\<close> below), so the loop goes through
  the buffer as it stands at its start.
\<close>

fun replayUpdates :: "parse_fn \<Rightarrow> jsobject list \<Rightarrow> subscription \<Rightarrow> subscription" where
  "replayUpdates parse [] s = s"
| "replayUpdates parse (message # rest) s =
     replayUpdates parse rest (snd (onStreamingData parse message s))"

text \<open>
  \<^verbatim>\<open>onSubscribeSuccess\<close>. The test \<^verbatim>\<open>!responseData.InactivityTimeout === 0\<close> compares a
  boolean with a number and is false for every response, so its warning has no branch.
\<close>

definition onSubscribeSuccess ::
  "parse_fn \<Rightarrow> string \<Rightarrow> subscribe_response \<Rightarrow> subscription \<Rightarrow> subscription" where
  "onSubscribeSuccess parse capturedId responseData s =
     (if Some capturedId \<noteq> referenceId s
      then log LogInfo ''Received an Ok subscribe response for subscribing a subscription that has afterwards been reset - ignoring'' s
      else
        (let s1 = setState STATE_SUBSCRIBED s;
             s2 = s1\<lparr>inactivityTimeout :=
                      Some (case InactivityTimeout responseData of None \<Rightarrow> 0 | Some t \<Rightarrow> t)\<rparr>;
             s3 = onActivity s2;
             s4 = (if onSubscriptionCreated s3 then emit OnSubscriptionCreated s3 else s3);
             s5 = (if peekAction (queue s4) \<noteq> Some ACTION_UNSUBSCRIBE
                   then (let s' = (case processSnapshot responseData s4 of
                                     Returned t \<Rightarrow> t
                                   | Threw e t \<Rightarrow>
                                       log LogError ''Exception occurred in streaming snapshot update callback'' t)
                         in case updatesBeforeSubscribed s' of
                              None \<Rightarrow> s'
                            | Some updates \<Rightarrow> replayUpdates parse updates s')
                   else s4);
             s6 = s5\<lparr>updatesBeforeSubscribed := None\<rparr>
         in onReadyToPerformNextAction s6))"

definition cleanUpLeftOverSubscription :: "string \<Rightarrow> subscription \<Rightarrow> subscription" where
  "cleanUpLeftOverSubscription capturedId s =
     emit (Delete (servicePath s) (url s @ ''/{contextId}/{referenceId}'')
             (currentStreamingContextId s) (Some capturedId)) s"

text \<open>The callback of the timer that \<^verbatim>\<open>onSubscribeError\<close> starts on a network error.\<close>

definition onNetworkErrorSubscribingTimer :: "subscription \<Rightarrow> subscription" where
  "onNetworkErrorSubscribingTimer s =
     tryPerformAction Subscribe (s\<lparr>networkErrorSubscribingTimer := False\<rparr>)"

text \<open>\<^verbatim>\<open>onSubscribeError\<close> from \<^verbatim>\<open>const isNetworkError\<close> to its end.\<close>

definition onSubscribeError_network ::
  "error_response option \<Rightarrow> bool \<Rightarrow> subscription \<Rightarrow> subscription" where
  "onSubscribeError_network resp willUnsubscribe s =
     (let networkError = (case resp of None \<Rightarrow> False | Some r \<Rightarrow> isNetworkError r)
      in if networkError \<and> \<not> willUnsubscribe
         then (let s1 = log LogDebug (''A network error occurred subscribing to '' @ url s) s;
                   s2 = emit (SetTimeout 5000) (s1\<lparr>networkErrorSubscribingTimer := True\<rparr>)
               in if onNetworkError s2 then emit OnNetworkError s2 else s2)
         else (let s1 = (if \<not> networkError
                         then log LogError (''An error occurred subscribing to '' @ url s) s
                         else s);
                   s2 = (if \<not> willUnsubscribe
                         then (if onError s1 then emit (OnError resp) s1 else s1)
                         else s1)
               in onReadyToPerformNextAction s2))"

text \<open>\<^verbatim>\<open>onSubscribeError\<close> from \<^verbatim>\<open>const errorCode\<close> to its end.\<close>

definition onSubscribeError_format ::
  "error_response option \<Rightarrow> bool \<Rightarrow> subscription \<Rightarrow> subscription" where
  "onSubscribeError_format resp willUnsubscribe s =
     (let errorCode = (case resp of
                         None \<Rightarrow> None
                       | Some r \<Rightarrow> (case response r of None \<Rightarrow> None | Some b \<Rightarrow> ErrorCode b))
      in if errorCode = Some ERROR_UNSUPPORTED_FORMAT
            \<and> get_prop (objects s (subscriptionData s)) ''Format'' = JStr FORMAT_PROTOBUF
         then (let s1 = log LogWarn ''Protobuf is not supported, falling back to JSON'' s;
                   s2 = s1\<lparr>objects := (objects s1)
                            (subscriptionData s1 :=
                               set_prop ''Format'' (JStr FORMAT_JSON)
                                 (objects s1 (subscriptionData s1)))\<rparr>;
                   s3 = s2\<lparr>parser := getParser (JStr FORMAT_JSON) (servicePath s2) (url s2)\<rparr>
               in if \<not> willUnsubscribe then tryPerformAction Subscribe s3
                  else onSubscribeError_network resp willUnsubscribe s3)
         else onSubscribeError_network resp willUnsubscribe s)"

definition onSubscribeError ::
  "string \<Rightarrow> error_response option \<Rightarrow> subscription \<Rightarrow> subscription" where
  "onSubscribeError capturedId resp s =
     (if Some capturedId \<noteq> referenceId s
      then log LogDebug ''Received an error response for subscribing a subscription that has afterwards been reset - ignoring'' s
      else
        (let willUnsubscribe = peekAction_and_UNSUBSCRIBE (queue s);
             s1 = setState STATE_UNSUBSCRIBED s;
             isDupeRequest =
               (case resp of
                  None \<Rightarrow> False
                | Some r \<Rightarrow>
                    (case response r of
                       None \<Rightarrow> False
                     | Some b \<Rightarrow> Message b = Some DUPLICATE_KEY_MESSAGE))
         in if isDupeRequest
            then (let s2 = log LogError ''A duplicate request occurred subscribing'' s1;
                      s3 = cleanUpLeftOverSubscription capturedId s2
                  in if \<not> willUnsubscribe then tryPerformAction Subscribe s3
                     else onSubscribeError_format resp willUnsubscribe s3)
            else onSubscribeError_format resp willUnsubscribe s1))"

definition onUnsubscribeSuccess :: "string \<Rightarrow> subscription \<Rightarrow> subscription" where
  "onUnsubscribeSuccess capturedId s =
     (if Some capturedId \<noteq> referenceId s
      then log LogDebug ''Received an error response for subscribing a subscription that has afterwards been reset - ignoring'' s
      else onReadyToPerformNextAction (setState STATE_UNSUBSCRIBED s))"

definition onUnsubscribeError :: "string \<Rightarrow> subscription \<Rightarrow> subscription" where
  "onUnsubscribeError capturedId s =
     (if Some capturedId \<noteq> referenceId s
      then log LogDebug ''Received an error response for unsubscribing a subscription that has afterwards been reset - ignoring'' s
      else onReadyToPerformNextAction
             (log LogInfo ''An error occurred unsubscribing'' (setState STATE_UNSUBSCRIBED s)))"

definition onModifyPatchSuccess :: "string \<Rightarrow> subscription \<Rightarrow> subscription" where
  "onModifyPatchSuccess capturedId s =
     (if Some capturedId \<noteq> referenceId s
      then log LogDebug ''Received a response for modify patch a subscription that has afterwards been reset - ignoring'' s
      else onReadyToPerformNextAction (setState STATE_SUBSCRIBED s))"

definition onModifyPatchError :: "string \<Rightarrow> subscription \<Rightarrow> subscription" where
  "onModifyPatchError capturedId s =
     (if Some capturedId \<noteq> referenceId s
      then log LogDebug ''Received an error response for modify patch a subscription that has afterwards been reset - ignoring'' s
      else onReadyToPerformNextAction
             (log LogError (''An error occurred patching '' @ url s) (setState STATE_SUBSCRIBED s)))"

subsection \<open>The constructor\<close>

record subscription_options =
  optOnUpdate :: bool
  optOnError :: bool
  optOnQueueEmpty :: bool
  optHeaders :: "jsobject option"
  optOnNetworkError :: bool

text \<open>
  \<^verbatim>\<open>function Subscription(..)\<close>, for the first subscription of a module: the counter
  is at 1, the store holds the caller's \<^verbatim>\<open>subscriptionArgs\<close> alone, nothing has happened
  yet. \<^verbatim>\<open>RefreshRate\<close>, when present, is a number of milliseconds.
\<close>

definition Subscription ::
  "string \<Rightarrow> string \<Rightarrow> string \<Rightarrow> jsobject \<Rightarrow> bool \<Rightarrow> subscription_options \<Rightarrow> subscription" where
  "Subscription contextId servicePath' url' subscriptionArgs onSubscriptionCreated' options =
     (let s0 = \<lparr>streamingContextId = contextId,
                 currentStreamingContextId = None,
                 referenceId = None,
                 queue = [],
                 parser = getParser (get_prop subscriptionArgs ''Format'') servicePath' url',
                 onStateChangedCallbacks = [],
                 servicePath = servicePath',
                 url = url',
                 onSubscriptionCreated = onSubscriptionCreated',
                 subscriptionData = 0,
                 onUpdate = optOnUpdate options,
                 onError = optOnError options,
                 onQueueEmpty = optOnQueueEmpty options,
                 headers = map_option (\<lambda>h. extend_obj [] [h]) (optHeaders options),
                 onNetworkError = optOnNetworkError options,
                 connectionAvailable = False,
                 currentState = None,
                 updatesBeforeSubscribed = None,
                 networkErrorSubscribingTimer = False,
                 inactivityTimeout = None,
                 latestActivity = None,
                 schemaName = None,
                 isDisposed = False,
                 referenceIdCounter = 1,
                 clock = 0,
                 objects = (\<lambda>a. [])(0 := subscriptionArgs),
                 nextObject = 1,
                 trace = []\<rparr>;
          refreshRate = get_prop subscriptionArgs ''RefreshRate'';
          s1 = (if \<not> truthy refreshRate
                then s0\<lparr>objects := (objects s0)
                         (0 := set_prop ''RefreshRate'' (JNum DEFAULT_REFRESH_RATE_MS) (objects s0 0))\<rparr>
                else if (case refreshRate of JNum n \<Rightarrow> n < MIN_REFRESH_RATE_MS | _ \<Rightarrow> False)
                then (let s' = log LogWarn ''Low refresh rate - this has been rounded up to the minimum'' s0
                      in s'\<lparr>objects := (objects s')
                            (0 := set_prop ''RefreshRate'' (JNum MIN_REFRESH_RATE_MS) (objects s' 0))\<rparr>)
                else s0);
          s2 = s1\<lparr>connectionAvailable := True\<rparr>
      in setState STATE_UNSUBSCRIBED s2)"

section \<open>Events, frames and example states\<close>

text \<open>An item that \<^verbatim>\<open>dequeue\<close> looks for behind the head.\<close>

definition unsubscribes :: "queued_item \<Rightarrow> bool" where
  "unsubscribes item =
     (action_of item = ACTION_UNSUBSCRIBE \<or> action_of item = ACTION_UNSUBSCRIBE_BY_TAG_PENDING)"

text \<open>The callback \<^verbatim>\<open>onError\<close> and the requests handed to the transport, among the events.\<close>

definition isOnError :: "event \<Rightarrow> bool" where
  "isOnError e = (case e of OnError r \<Rightarrow> True | _ \<Rightarrow> False)"

definition isRequest :: "event \<Rightarrow> bool" where
  "isRequest e = (case e of Post a b c d \<Rightarrow> True | Delete a b c d \<Rightarrow> True
                  | Patch a b c d f \<Rightarrow> True | _ \<Rightarrow> False)"

text \<open>
  \<open>continues s s'\<close>: from \<open>s\<close> to \<open>s'\<close> the parser, the reference to the subscription
  data, the endpoint and the disposed flag are the same, the objects that exist in \<open>s\<close>
  are unchanged, and the trace has grown by events that are no \<^verbatim>\<open>onError\<close>.
  \<open>grows s s'\<close>: the trace has grown.
\<close>

definition continues :: "subscription \<Rightarrow> subscription \<Rightarrow> bool" where
  "continues s s' =
     (parser s' = parser s \<and> subscriptionData s' = subscriptionData s
      \<and> servicePath s' = servicePath s \<and> url s' = url s
      \<and> isDisposed s' = isDisposed s
      \<and> nextObject s \<le> nextObject s'
      \<and> (\<forall>a. a < nextObject s \<longrightarrow> objects s' a = objects s a)
      \<and> (\<exists>es. trace s' = trace s @ es \<and> (\<forall>e\<in>set es. \<not> isOnError e)))"

definition grows :: "subscription \<Rightarrow> subscription \<Rightarrow> bool" where
  "grows s s' = (\<exists>es. trace s' = trace s @ es)"

text \<open>The states in which the buffered updates are replayed.\<close>

definition replaying :: "subscription \<Rightarrow> bool" where
  "replaying s =
     (currentState s = STATE_SUBSCRIBED \<or> currentState s = STATE_UNSUBSCRIBE_REQUESTED)"

text \<open>
  Everything that can happen to a subscription: the calls of its exported methods, the
  responses of the transport, the timer, and time passing.
\<close>

datatype call =
    CallOnSubscribe
  | CallOnModify jsvalue "modify_options option"
  | CallOnUnsubscribe bool
  | CallReset
  | CallDispose
  | CallOnConnectionUnavailable
  | CallOnConnectionAvailable
  | CallOnStreamingData jsobject
  | CallOnHeartbeat
  | CallOnUnsubscribeByTagPending
  | CallOnUnsubscribeByTagComplete
  | CallAddStateChangedCallback nat
  | CallRemoveStateChangedCallback nat
  | SubscribeSuccess string subscribe_response
  | SubscribeError string "error_response option"
  | UnsubscribeSuccess string
  | UnsubscribeError string
  | ModifyPatchSuccess string
  | ModifyPatchError string
  | NetworkErrorTimerFired
  | ClockAdvances nat

fun run :: "parse_fn \<Rightarrow> call \<Rightarrow> subscription \<Rightarrow> subscription" where
  "run parse CallOnSubscribe s = state_of (onSubscribe s)"
| "run parse (CallOnModify newArgs options) s = state_of (onModify newArgs options s)"
| "run parse (CallOnUnsubscribe force) s = onUnsubscribe force s"
| "run parse CallReset s = state_of (reset s)"
| "run parse CallDispose s = dispose s"
| "run parse CallOnConnectionUnavailable s = onConnectionUnavailable s"
| "run parse CallOnConnectionAvailable s = onConnectionAvailable s"
| "run parse (CallOnStreamingData message) s = snd (onStreamingData parse message s)"
| "run parse CallOnHeartbeat s = onHeartbeat s"
| "run parse CallOnUnsubscribeByTagPending s = onUnsubscribeByTagPending s"
| "run parse CallOnUnsubscribeByTagComplete s = onUnsubscribeByTagComplete s"
| "run parse (CallAddStateChangedCallback callback) s = addStateChangedCallback callback s"
| "run parse (CallRemoveStateChangedCallback callback) s = removeStateChangedCallback callback s"
| "run parse (SubscribeSuccess capturedId responseData) s =
     onSubscribeSuccess parse capturedId responseData s"
| "run parse (SubscribeError capturedId resp) s = onSubscribeError capturedId resp s"
| "run parse (UnsubscribeSuccess capturedId) s = onUnsubscribeSuccess capturedId s"
| "run parse (UnsubscribeError capturedId) s = onUnsubscribeError capturedId s"
| "run parse (ModifyPatchSuccess capturedId) s = onModifyPatchSuccess capturedId s"
| "run parse (ModifyPatchError capturedId) s = onModifyPatchError capturedId s"
| "run parse NetworkErrorTimerFired s =
     (if networkErrorSubscribingTimer s then onNetworkErrorSubscribingTimer s else s)"
| "run parse (ClockAdvances d) s = s\<lparr>clock := clock s + d\<rparr>"

text \<open>
  A subscription to \<^verbatim>\<open>/test\<close> with \<^verbatim>\<open>{ Format: 'application/x-protobuf', Top: 5 }\<close>: as
  constructed, after \<^verbatim>\<open>onSubscribe()\<close> (the POST with reference id 1 is out), after the
  POST has succeeded, and after \<^verbatim>\<open>onUnsubscribeByTagPending()\<close> in that state. Then a
  streamed message and three rejections of a subscribe.
\<close>

definition exampleOptions :: subscription_options where
  "exampleOptions =
     \<lparr>optOnUpdate = True, optOnError = True, optOnQueueEmpty = False, optHeaders = None,
      optOnNetworkError = False\<rparr>"

definition exampleArgs :: jsobject where
  "exampleArgs = [(''Format'', JStr FORMAT_PROTOBUF), (''Top'', JNum 5)]"

definition exampleParse :: parse_fn where
  "exampleParse p d n = Some d"

definition exampleNew :: subscription where
  "exampleNew = Subscription ''ctx'' ''sp'' ''/test'' exampleArgs True exampleOptions"

definition exampleRequested :: subscription where
  "exampleRequested = state_of (onSubscribe exampleNew)"

definition exampleResponse :: subscribe_response where
  "exampleResponse =
     \<lparr>InactivityTimeout = Some 30, Snapshot = JOpaque ''snapshot'', Schema = None,
      SchemaName = None\<rparr>"

definition exampleSubscribed :: subscription where
  "exampleSubscribed = onSubscribeSuccess exampleParse ''1'' exampleResponse exampleRequested"

definition exampleReadyForUnsubscribeByTag :: subscription where
  "exampleReadyForUnsubscribeByTag = onUnsubscribeByTagPending exampleSubscribed"

definition exampleMessage :: jsobject where
  "exampleMessage = [(''ReferenceId'', JStr ''1''), (''Data'', JOpaque ''delta'')]"

definition exampleDuplicate :: "error_response option" where
  "exampleDuplicate =
     Some \<lparr>isNetworkError = False,
           response = Some \<lparr>Message = Some DUPLICATE_KEY_MESSAGE, ErrorCode = None\<rparr>\<rparr>"

definition exampleUnsupported :: "error_response option" where
  "exampleUnsupported =
     Some \<lparr>isNetworkError = False,
           response = Some \<lparr>Message = None, ErrorCode = Some ERROR_UNSUPPORTED_FORMAT\<rparr>\<rparr>"

definition exampleUnsupportedDuplicate :: "error_response option" where
  "exampleUnsupportedDuplicate =
     Some \<lparr>isNetworkError = False,
           response = Some \<lparr>Message = Some DUPLICATE_KEY_MESSAGE,
                             ErrorCode = Some ERROR_UNSUPPORTED_FORMAT\<rparr>\<rparr>"

section \<open>Properties of the queue\<close>

lemma dequeue_scan_prefix:
  "n \<le> length xs \<Longrightarrow> dequeue_scan (xs @ ys) n = dequeue_scan xs n"
  by (induction n) (simp_all add: nth_append)

lemma dequeue_scan_none:
  "n \<le> length xs \<Longrightarrow> \<forall>x\<in>set xs. \<not> unsubscribes x \<Longrightarrow> dequeue_scan xs n = None"
  by (induction n) (simp_all add: unsubscribes_def)

lemma dequeue_scan_last:
  "unsubscribes u \<Longrightarrow> \<forall>x\<in>set post. \<not> unsubscribes x \<Longrightarrow>
   dequeue_scan (pre @ u # post) (Suc (length pre + length post)) = Some (length pre)"
proof (induction post rule: rev_induct)
  case Nil
  then show ?case by (simp add: unsubscribes_def)
next
  case (snoc x xs)
  have "dequeue_scan ((pre @ u # xs) @ [x]) (Suc (length pre + length xs))
        = dequeue_scan (pre @ u # xs) (Suc (length pre + length xs))"
    by (rule dequeue_scan_prefix) simp
  moreover have "(pre @ u # xs @ [x]) ! Suc (length pre + length xs) = x"
    by (simp add: nth_append)
  ultimately show ?case
    using snoc by (simp add: unsubscribes_def)
qed

lemma dequeue_not_found:
  "dequeue_scan rest (length rest) = None \<Longrightarrow> dequeue (nextItem # rest) = (Some nextItem, rest)"
  by (simp add: dequeue_def)

lemma dequeue_found:
  "dequeue_scan rest (length rest) = Some i \<Longrightarrow>
   dequeue (nextItem # rest) = (Some (rest ! i), drop (Suc i) rest)"
  by (cases rest) (simp_all add: dequeue_def)

text \<open>
  Claim C4, as the code has it. \<^verbatim>\<open>dequeue\<close> of a non-empty queue removes the head. When no
  item behind the head is an UNSUBSCRIBE or an UNSUBSCRIBE_BY_TAG_PENDING, it returns the
  head and the rest of the queue stays. Otherwise it returns the last such item, not the
  head, and the queue keeps only the items strictly behind that item: the head, the items
  before the returned item and the returned item itself are gone.
\<close>

theorem dequeue_skips_to_last_unsubscribe:
  "((\<forall>x\<in>set rest. \<not> unsubscribes x) \<longrightarrow> dequeue (nextItem # rest) = (Some nextItem, rest))
   \<and> (unsubscribes u \<and> (\<forall>x\<in>set post. \<not> unsubscribes x) \<longrightarrow>
        dequeue (nextItem # pre @ u # post) = (Some u, post))"
proof (intro conjI impI)
  assume "\<forall>x\<in>set rest. \<not> unsubscribes x"
  then have "dequeue_scan rest (length rest) = None"
    by (simp add: dequeue_scan_none)
  then show "dequeue (nextItem # rest) = (Some nextItem, rest)"
    by (rule dequeue_not_found)
next
  assume a: "unsubscribes u \<and> (\<forall>x\<in>set post. \<not> unsubscribes x)"
  define r where "r = pre @ u # post"
  have "dequeue_scan r (length r) = Some (length pre)"
    using a dequeue_scan_last [of u post pre] by (simp add: r_def)
  then have "dequeue (nextItem # r) = (Some (r ! length pre), drop (Suc (length pre)) r)"
    by (rule dequeue_found)
  then show "dequeue (nextItem # pre @ u # post) = (Some u, post)"
    by (simp add: r_def)
qed

theorem dequeue_skips_to_last_unsubscribe_witness:
  "dequeue [Subscribe, ModifyPatch ''d''] = (Some Subscribe, [ModifyPatch ''d''])
   \<and> dequeue [Subscribe, ModifyPatch ''a'', Unsubscribe True, ModifyPatch ''b''] = (Some (Unsubscribe True), [ModifyPatch ''b''])"
  using dequeue_skips_to_last_unsubscribe [of "[ModifyPatch ''d'']" Subscribe "Unsubscribe True" "[ModifyPatch ''b'']" "[ModifyPatch ''a'']"]
  by (simp add: unsubscribes_def)

text \<open>
  Claim C4 as stated has \<^verbatim>\<open>dequeue\<close> return the head of every non-empty queue. Of a patch
  followed by an unsubscribe it returns the unsubscribe, and the queue is empty afterwards.
\<close>

theorem dequeue_returns_head_counterexample:
  "dequeue [ModifyPatch ''d'', Unsubscribe False] = (Some (Unsubscribe False), [])
   \<and> fst (dequeue [ModifyPatch ''d'', Unsubscribe False]) \<noteq> Some (ModifyPatch ''d'')"
  by (simp add: dequeue_def)

text \<open>
  Claim C6. When the tail of the queue has the action of the new item and that action is
  not MODIFY_PATCH, \<^verbatim>\<open>enqueue\<close> changes nothing but the tail's \<^verbatim>\<open>force\<close> flag of an
  UNSUBSCRIBE, which becomes the disjunction of the two flags; in particular a queue whose
  tail equals the new item is unchanged. The burst SUBSCRIBE, UNSUBSCRIBE (unforced),
  SUBSCRIBE, UNSUBSCRIBE (unforced) on the empty queue leaves exactly one unforced
  UNSUBSCRIBE.
\<close>

theorem enqueue_duplicate_is_noop:
  "(items \<noteq> [] \<and> action_of a = action_of (last items) \<and> action_of a \<noteq> ACTION_MODIFY_PATCH \<longrightarrow>
      enqueue a items =
        butlast items @
          [if action_of a = ACTION_UNSUBSCRIBE
           then Unsubscribe (args_force (last items) \<or> args_force a) else last items])
   \<and> (items \<noteq> [] \<and> last items = a \<and> action_of a \<noteq> ACTION_MODIFY_PATCH \<longrightarrow> enqueue a items = items)
   \<and> enqueue (Unsubscribe False) (enqueue Subscribe (enqueue (Unsubscribe False) (enqueue Subscribe [])))
       = [Unsubscribe False]"
proof (intro conjI impI)
  assume h: "items \<noteq> [] \<and> action_of a = action_of (last items) \<and> action_of a \<noteq> ACTION_MODIFY_PATCH"
  show "enqueue a items =
        butlast items @
          [if action_of a = ACTION_UNSUBSCRIBE
           then Unsubscribe (args_force (last items) \<or> args_force a) else last items]"
  proof -
    from h obtain xs p where items: "items = xs @ [p]"
      by (cases items rule: rev_cases) auto
    with h show ?thesis
      by (subst enqueue.simps) (cases a; cases p; auto)
  qed
next
  assume h: "items \<noteq> [] \<and> last items = a \<and> action_of a \<noteq> ACTION_MODIFY_PATCH"
  then show "enqueue a items = items"
    by (subst enqueue.simps) (cases a; auto)
next
  show "enqueue (Unsubscribe False) (enqueue Subscribe (enqueue (Unsubscribe False) (enqueue Subscribe [])))
       = [Unsubscribe False]"
    by (simp add: enqueue.simps)
qed

theorem enqueue_duplicate_is_noop_witness:
  "enqueue (Unsubscribe True) [ModifyPatch ''d'', Unsubscribe False] = [ModifyPatch ''d'', Unsubscribe True]
   \<and> enqueue Subscribe [Unsubscribe True, Subscribe] = [Unsubscribe True, Subscribe]"
  using enqueue_duplicate_is_noop [of "[ModifyPatch ''d'', Unsubscribe False]" "Unsubscribe True"]
    enqueue_duplicate_is_noop [of "[Unsubscribe True, Subscribe]" "Subscribe"]
  by simp

lemma clearPatches_loop_reached: "clearPatches_loop items newItems True = newItems"
  by (induction items arbitrary: newItems) simp_all

lemma clearPatches_loop_find:
  "clearPatches_loop items newItems False =
     newItems @ (case List.find (\<lambda>i. action_of i \<noteq> ACTION_SUBSCRIBE \<and> action_of i \<noteq> ACTION_MODIFY_PATCH) items of
                   None \<Rightarrow> [] | Some x \<Rightarrow> [x])"
  by (induction items arbitrary: newItems) (simp_all add: clearPatches_loop_reached)

text \<open>
  Claim C9. After \<^verbatim>\<open>clearPatches\<close> the queue has at most one item: the first item of the
  old queue whose action is neither SUBSCRIBE nor MODIFY_PATCH when there is one, and
  nothing otherwise.
\<close>

theorem clearPatches_keeps_first_other:
  "clearPatches items =
     (case List.find (\<lambda>i. action_of i \<noteq> ACTION_SUBSCRIBE \<and> action_of i \<noteq> ACTION_MODIFY_PATCH) items of
        None \<Rightarrow> [] | Some x \<Rightarrow> [x])
   \<and> length (clearPatches items) \<le> 1"
  by (simp add: clearPatches_def clearPatches_loop_find split: option.split)

theorem clearPatches_keeps_first_other_witness:
  "clearPatches [Subscribe, ModifyPatch ''d'', Unsubscribe True, UnsubscribeByTagPending]
     = [Unsubscribe True]"
  using clearPatches_keeps_first_other
    [of "[Subscribe, ModifyPatch ''d'', Unsubscribe True, UnsubscribeByTagPending]"]
  by simp

section \<open>Frame lemmas of the subscription\<close>

lemma continues_refl: "continues s s"
  by (simp add: continues_def)

lemma continues_trans: "continues s s' \<Longrightarrow> continues s' s'' \<Longrightarrow> continues s s''"
  unfolding continues_def
  by (elim conjE exE, intro conjI) (auto intro!: exI [where x = "_ @ _"])

lemma continues_emit: "\<not> isOnError e \<Longrightarrow> continues s (emit e s)"
  by (simp add: continues_def emit_def)

lemma continues_log: "continues s (log l m s)"
  by (simp add: log_def continues_emit isOnError_def)

lemma continues_setState: "continues s (setState st s)"
  by (auto simp: continues_def setState_def isOnError_def)

lemma continues_queue: "continues s (s\<lparr>queue := q\<rparr>)"
  by (simp add: continues_def)

lemma continues_subscribe: "continues s (subscribe s)"
  by (auto simp: continues_def subscribe_def Let_def log_def emit_def setState_def isOnError_def)

lemma continues_unsubscribe: "continues s (unsubscribe s)"
  by (auto simp: continues_def unsubscribe_def Let_def emit_def setState_def isOnError_def)

lemma continues_modifyPatch: "continues s (modifyPatch a s)"
  by (auto simp: continues_def modifyPatch_def Let_def emit_def setState_def isOnError_def)

lemma continues_unsubscribeByTagPending: "continues s (unsubscribeByTagPending s)"
  by (simp add: unsubscribeByTagPending_def continues_setState)

lemma continues_performAction_switch: "continues s (performAction_switch queuedAction s)"
proof (cases queuedAction)
  case Subscribe
  have "continues s (subscribe (s\<lparr>queue := clearPatches (queue s)\<rparr>))"
    by (rule continues_trans [OF continues_queue continues_subscribe])
  with Subscribe show ?thesis
    by (simp add: performAction_switch_def continues_refl continues_log)
qed (simp_all add: performAction_switch_def continues_refl continues_log continues_unsubscribe
       continues_modifyPatch continues_unsubscribeByTagPending)

lemma continues_performAction_step:
  "continues s (performAction_step queuedAction isLast s)"
  using continues_performAction_switch [of s queuedAction]
    continues_emit [of OnQueueEmpty "performAction_switch queuedAction s"]
  by (auto simp: performAction_step_def Let_def isOnError_def intro: continues_trans)

lemma continues_performAction: "continues s (performAction queuedAction isLast s)"
proof (induction queuedAction isLast s rule: performAction.induct)
  case (1 queuedAction isLast s)
  define s1 where "s1 = performAction_step queuedAction isLast s"
  have step: "continues s s1"
    by (simp add: s1_def continues_performAction_step)
  show ?case
  proof (cases "\<not> isEmpty (queue s1) \<and> \<not> isTransitioning s1")
    case False
    then show ?thesis
      using step by (subst performAction.simps) (auto simp: s1_def Let_def)
  next
    case True
    obtain x items where d: "dequeue (queue s1) = (x, items)"
      by (cases "dequeue (queue s1)")
    show ?thesis
    proof (cases x)
      case None
      then show ?thesis
        using step True d by (subst performAction.simps) (auto simp: s1_def Let_def)
    next
      case (Some nextAction)
      have "continues (s1\<lparr>queue := items\<rparr>) (performAction nextAction (isEmpty items) (s1\<lparr>queue := items\<rparr>))"
        using "1.IH" [OF s1_def True d [symmetric] Some] .
      then have "continues s (performAction nextAction (isEmpty items) (s1\<lparr>queue := items\<rparr>))"
        using step continues_queue continues_trans by blast
      then show ?thesis
        using True d Some by (subst performAction.simps) (auto simp: s1_def Let_def)
    qed
  qed
qed

lemma continues_tryPerformAction: "continues s (tryPerformAction queuedAction s)"
proof -
  define s1 where "s1 = (if networkErrorSubscribingTimer s
                then emit ClearTimeout (s\<lparr>networkErrorSubscribingTimer := False\<rparr>)
                else s)"
  have a: "continues s s1"
    by (auto simp: s1_def continues_def emit_def isOnError_def)
  have "continues s1 (s1\<lparr>queue := enqueue queuedAction (queue s1)\<rparr>)"
    by (rule continues_queue)
  moreover have "continues s1 (performAction queuedAction False s1)"
    by (rule continues_performAction)
  ultimately have "continues s1 (tryPerformAction queuedAction s)"
    by (simp add: tryPerformAction_def s1_def [symmetric] Let_def)
  with a show ?thesis by (rule continues_trans)
qed

lemma continues_onReadyToPerformNextAction: "continues s (onReadyToPerformNextAction s)"
proof -
  have "continues s (performAction a b (s\<lparr>queue := q\<rparr>))" for a b q
    using continues_queue continues_performAction continues_trans by blast
  then show ?thesis
    by (auto simp: onReadyToPerformNextAction_def continues_refl split: prod.split option.split)
qed

lemma continues_onSubscribeError_network_unsubscribing:
  "continues s (onSubscribeError_network resp True s)"
proof -
  have "continues s (onReadyToPerformNextAction (log l m s))" for l m
    using continues_log continues_onReadyToPerformNextAction continues_trans by blast
  then show ?thesis
    by (simp add: onSubscribeError_network_def Let_def continues_onReadyToPerformNextAction)
qed

lemma continues_no_OnError:
  "continues s s' \<Longrightarrow> filter isOnError (trace s') = filter isOnError (trace s)"
  by (auto simp: continues_def)

lemma continues_subscribe_funpow: "continues s ((subscribe ^^ n) s)"
proof (induction n)
  case 0
  show ?case by (simp add: continues_refl)
next
  case (Suc n)
  then show ?case
    using continues_subscribe continues_trans by auto
qed

lemma grows_refl: "grows s s"
  by (simp add: grows_def)

lemma grows_trans: "grows s s' \<Longrightarrow> grows s' s'' \<Longrightarrow> grows s s''"
  by (auto simp: grows_def)

lemma continues_grows: "continues s s' \<Longrightarrow> grows s s'"
  by (auto simp: continues_def grows_def)

lemma grows_emit: "grows s (emit e s)"
  by (simp add: grows_def emit_def)

lemma grows_log: "grows s (log l m s)"
  by (simp add: log_def grows_emit)

lemma grows_onSubscribeError_network: "grows s (onSubscribeError_network resp w s)"
proof -
  have a: "grows t (onReadyToPerformNextAction t)" for t
    by (simp add: continues_grows continues_onReadyToPerformNextAction)
  have b: "grows s t \<Longrightarrow> grows s (onReadyToPerformNextAction t)" for t
    using a grows_trans by blast
  have c: "grows s (emit e (log l m s))" for e l m
    using grows_log grows_emit grows_trans by blast
  show ?thesis
    unfolding onSubscribeError_network_def Let_def
    by (auto intro!: b simp: grows_log c grows_refl grows_emit) (auto simp: grows_def emit_def log_def)
qed

lemma grows_onSubscribeError_format: "grows s (onSubscribeError_format resp w s)"
proof -
  define s3 where "s3 = (log LogWarn ''Protobuf is not supported, falling back to JSON'' s)
     \<lparr>objects := (objects s)
        (subscriptionData s := set_prop ''Format'' (JStr FORMAT_JSON) (objects s (subscriptionData s))),
      parser := getParser (JStr FORMAT_JSON) (servicePath s) (url s)\<rparr>"
  have g: "grows s s3"
    by (simp add: s3_def grows_def log_def emit_def)
  have "grows s (tryPerformAction Subscribe s3)"
    using g continues_grows [OF continues_tryPerformAction] grows_trans by blast
  moreover have "grows s (onSubscribeError_network resp w s3)"
    using g grows_onSubscribeError_network grows_trans by blast
  moreover have "onSubscribeError_format resp w s = tryPerformAction Subscribe s3
      \<or> onSubscribeError_format resp w s = onSubscribeError_network resp w s3
      \<or> onSubscribeError_format resp w s = onSubscribeError_network resp w s"
    by (simp add: onSubscribeError_format_def Let_def s3_def log_def emit_def)
  ultimately show ?thesis
    using grows_onSubscribeError_network [of s resp w] by auto
qed

text \<open>The constants are single bits: the bitwise test of the head action is an equality.\<close>

lemma peekAction_and_UNSUBSCRIBE_iff:
  "peekAction_and_UNSUBSCRIBE items \<longleftrightarrow> peekAction items = Some ACTION_UNSUBSCRIBE"
proof (cases items)
  case Nil
  then show ?thesis by (simp add: peekAction_and_UNSUBSCRIBE_def peekAction_def)
next
  case (Cons item rest)
  then show ?thesis
    by (cases item) (simp_all add: peekAction_and_UNSUBSCRIBE_def peekAction_def)
qed

lemma requested_states_transitioning:
  "currentState s = STATE_SUBSCRIBE_REQUESTED \<or> currentState s = STATE_UNSUBSCRIBE_REQUESTED
     \<or> currentState s = STATE_PATCH_REQUESTED \<Longrightarrow> isTransitioning s"
  by (auto simp: isTransitioning_def TRANSITIONING_STATES_def STATE_SUBSCRIBE_REQUESTED_def
      STATE_UNSUBSCRIBE_REQUESTED_def STATE_PATCH_REQUESTED_def STATE_READY_FOR_UNSUBSCRIBE_BY_TAG_def)

lemma ready_for_unsubscribe_by_tag_not_transitioning:
  "currentState s = STATE_READY_FOR_UNSUBSCRIBE_BY_TAG \<Longrightarrow> \<not> isTransitioning s"
  by (simp add: isTransitioning_def STATE_READY_FOR_UNSUBSCRIBE_BY_TAG_def)

text \<open>
  The replay of \<^verbatim>\<open>onSubscribeSuccess\<close> starts in state SUBSCRIBED. From there
  \<^verbatim>\<open>onStreamingData\<close> leaves the state SUBSCRIBED or UNSUBSCRIBE_REQUESTED (after a reset)
  and never touches \<^verbatim>\<open>updatesBeforeSubscribed\<close>: the list that the loop of the source reads
  again at every turn is the list that \<open>replayUpdates\<close> is given.
\<close>

lemma performAction_unsubscribe_subscribed:
  assumes "currentState s = STATE_SUBSCRIBED"
  shows "performAction (Unsubscribe force) False s = unsubscribe s"
proof -
  have "isTransitioning (unsubscribe s)"
    by (rule requested_states_transitioning) (simp add: unsubscribe_def Let_def emit_def setState_def)
  then show ?thesis
    using assms
    by (subst performAction.simps)
       (simp add: performAction_step_def performAction_switch_def Let_def)
qed

lemma tryPerformAction_replaying:
  assumes "replaying s"
  shows "replaying (tryPerformAction (Unsubscribe force) s)
       \<and> updatesBeforeSubscribed (tryPerformAction (Unsubscribe force) s) = updatesBeforeSubscribed s"
proof -
  define s1 where "s1 = (if networkErrorSubscribingTimer s
                then emit ClearTimeout (s\<lparr>networkErrorSubscribingTimer := False\<rparr>)
                else s)"
  have s1: "currentState s1 = currentState s" "updatesBeforeSubscribed s1 = updatesBeforeSubscribed s"
    by (simp_all add: s1_def emit_def)
  have t: "tryPerformAction (Unsubscribe force) s =
      (if \<not> connectionAvailable s1 \<or> isTransitioning s1
       then s1\<lparr>queue := enqueue (Unsubscribe force) (queue s1)\<rparr>
       else performAction (Unsubscribe force) False s1)"
    by (simp add: tryPerformAction_def s1_def Let_def)
  show ?thesis
  proof (cases "\<not> connectionAvailable s1 \<or> isTransitioning s1")
    case True
    then show ?thesis
      using assms s1 by (simp add: t replaying_def)
  next
    case False
    then have "currentState s1 \<noteq> STATE_UNSUBSCRIBE_REQUESTED"
      using requested_states_transitioning [of s1] by auto
    then have sub: "currentState s1 = STATE_SUBSCRIBED"
      using assms s1 by (simp add: replaying_def)
    have "performAction (Unsubscribe force) False s1 = unsubscribe s1"
      using sub by (rule performAction_unsubscribe_subscribed)
    then show ?thesis
      using False s1 by (simp add: t replaying_def unsubscribe_def Let_def emit_def setState_def)
  qed
qed

lemma tryPerformAction_replaying_blocked:
  assumes "replaying s"
  shows "\<not> connectionAvailable (tryPerformAction (Unsubscribe force) s)
       \<or> isTransitioning (tryPerformAction (Unsubscribe force) s)"
proof -
  define s1 where "s1 = (if networkErrorSubscribingTimer s
                then emit ClearTimeout (s\<lparr>networkErrorSubscribingTimer := False\<rparr>)
                else s)"
  have s1: "currentState s1 = currentState s"
    by (simp add: s1_def emit_def)
  have t: "tryPerformAction (Unsubscribe force) s =
      (if \<not> connectionAvailable s1 \<or> isTransitioning s1
       then s1\<lparr>queue := enqueue (Unsubscribe force) (queue s1)\<rparr>
       else performAction (Unsubscribe force) False s1)"
    by (simp add: tryPerformAction_def s1_def Let_def)
  show ?thesis
  proof (cases "\<not> connectionAvailable s1 \<or> isTransitioning s1")
    case True
    then show ?thesis
      by (auto simp: t isTransitioning_def)
  next
    case False
    then have "currentState s1 \<noteq> STATE_UNSUBSCRIBE_REQUESTED"
      using requested_states_transitioning [of s1] by auto
    then have sub: "currentState s1 = STATE_SUBSCRIBED"
      using assms s1 by (simp add: replaying_def)
    have "performAction (Unsubscribe force) False s1 = unsubscribe s1"
      using sub by (rule performAction_unsubscribe_subscribed)
    moreover have "isTransitioning (unsubscribe s1)"
      by (rule requested_states_transitioning)
         (simp add: unsubscribe_def Let_def emit_def setState_def)
    ultimately show ?thesis
      using False by (simp add: t)
  qed
qed

lemma tryPerformAction_blocked:
  assumes "\<not> connectionAvailable s \<or> isTransitioning s"
  shows "currentState (tryPerformAction queuedAction s) = currentState s
       \<and> updatesBeforeSubscribed (tryPerformAction queuedAction s) = updatesBeforeSubscribed s"
proof -
  have "isTransitioning (emit ClearTimeout (s\<lparr>networkErrorSubscribingTimer := False\<rparr>))
      = isTransitioning s"
    by (simp add: isTransitioning_def emit_def)
  then show ?thesis
    using assms by (auto simp: tryPerformAction_def Let_def emit_def)
qed

lemma reset_replaying:
  assumes "replaying s"
  shows "replaying (state_of (reset s))
       \<and> updatesBeforeSubscribed (state_of (reset s)) = updatesBeforeSubscribed s"
proof (cases "currentState s = STATE_SUBSCRIBED \<and> \<not> peekAction_and_UNSUBSCRIBE (queue s)")
  case False
  then show ?thesis
    using assms
    by (auto simp: reset_def replaying_def STATE_SUBSCRIBED_def STATE_UNSUBSCRIBE_REQUESTED_def
        STATE_UNSUBSCRIBED_def STATE_SUBSCRIBE_REQUESTED_def STATE_PATCH_REQUESTED_def
        STATE_READY_FOR_UNSUBSCRIBE_BY_TAG_def)
next
  case True
  define s0 where "s0 = (if isDisposed s
                then log LogWarn ''Unsubscribing a disposed subscription - this is not necessary'' s
                else s)"
  define t1 where "t1 = tryPerformAction (Unsubscribe True) s0"
  have s0: "replaying s0" "updatesBeforeSubscribed s0 = updatesBeforeSubscribed s"
    using assms by (simp_all add: s0_def replaying_def log_def emit_def)
  have u: "onUnsubscribe True s = t1"
    by (simp add: onUnsubscribe_def Let_def s0_def t1_def)
  have t1: "replaying t1" "updatesBeforeSubscribed t1 = updatesBeforeSubscribed s"
    "\<not> connectionAvailable t1 \<or> isTransitioning t1"
    using tryPerformAction_replaying [OF s0(1), of True]
      tryPerformAction_replaying_blocked [OF s0(1), of True] s0(2)
    by (simp_all add: t1_def)
  have r: "reset s = onSubscribe t1"
    using True u
    by (simp add: reset_def STATE_SUBSCRIBED_def STATE_UNSUBSCRIBE_REQUESTED_def
        STATE_UNSUBSCRIBED_def STATE_SUBSCRIBE_REQUESTED_def)
  show ?thesis
    using t1 tryPerformAction_blocked [OF t1(3), of Subscribe]
    by (auto simp: r onSubscribe_def replaying_def)
qed

lemma onStreamingData_replaying:
  assumes "replaying s"
  shows "replaying (snd (onStreamingData parse message s))
       \<and> updatesBeforeSubscribed (snd (onStreamingData parse message s)) = updatesBeforeSubscribed s"
proof (cases "currentState s = STATE_SUBSCRIBED")
  case False
  then have "currentState s = STATE_UNSUBSCRIBE_REQUESTED"
    using assms by (simp add: replaying_def)
  then show ?thesis
    by (simp add: onStreamingData_def Let_def onActivity_def replaying_def)
next
  case True
  define s1 where "s1 = onActivity s"
  have s1: "replaying s1" "updatesBeforeSubscribed s1 = updatesBeforeSubscribed s"
    "currentState s1 = STATE_SUBSCRIBED"
    using True by (simp_all add: s1_def onActivity_def replaying_def)
  define l where "l = log LogError ''Error occurred parsing Data'' s1"
  have l: "replaying l" "updatesBeforeSubscribed l = updatesBeforeSubscribed s"
    using s1 by (simp_all add: l_def log_def emit_def replaying_def)
  have p: "replaying (state_of (processUpdate parse message UPDATE_TYPE_DELTA s1))
       \<and> updatesBeforeSubscribed (state_of (processUpdate parse message UPDATE_TYPE_DELTA s1))
           = updatesBeforeSubscribed s"
    using reset_replaying [OF l(1)] l(2) s1
    by (auto simp: processUpdate_def l_def [symmetric] emit_def replaying_def split: option.split)
  have o: "snd (onStreamingData parse message s)
      = (case processUpdate parse message UPDATE_TYPE_DELTA s1 of
           Returned s3 \<Rightarrow> s3
         | Threw e s3 \<Rightarrow> log LogError ''Exception occurred in streaming delta update callback'' s3)"
    using s1(3)
    by (simp add: onStreamingData_def Let_def s1_def [symmetric] STATE_SUBSCRIBED_def
        STATE_UNSUBSCRIBE_REQUESTED_def STATE_UNSUBSCRIBED_def STATE_SUBSCRIBE_REQUESTED_def)
  show ?thesis
    using p
    by (cases "processUpdate parse message UPDATE_TYPE_DELTA s1")
       (simp_all add: o log_def emit_def replaying_def)
qed

lemma replayUpdates_replaying:
  "replaying s \<Longrightarrow>
   replaying (replayUpdates parse updates s)
   \<and> updatesBeforeSubscribed (replayUpdates parse updates s) = updatesBeforeSubscribed s"
proof (induction updates arbitrary: s)
  case Nil
  then show ?case by simp
next
  case (Cons message rest)
  then show ?case
    using onStreamingData_replaying [of s parse message] by simp
qed

lemma map_of_set_prop: "map_of (set_prop k v obj) k = Some v"
  by (induction obj) auto

lemma get_prop_set_prop: "get_prop (set_prop k v obj) k = v"
  by (simp add: get_prop_def map_of_set_prop)

lemma normalizeSubscribeData_no_Top: "\<not> hasOwnProperty (normalizeSubscribeData data) ''Top''"
proof -
  have "map_of (filter (\<lambda>p. fst p \<noteq> k) obj) k = None" for k :: string and obj :: jsobject
    by (induction obj) auto
  then show ?thesis
    by (auto simp: normalizeSubscribeData_def hasOwnProperty_def delete_prop_def)
qed

lemma subscribe_Post:
  "\<exists>body hdrs. last (trace (subscribe s))
      = Post (servicePath s) (getSubscribeUrl (url s) (objects s (subscriptionData s))) body hdrs
      \<and> \<not> hasOwnProperty body ''Top''"
  using normalizeSubscribeData_no_Top
  by (simp add: subscribe_def Let_def emit_def log_def setState_def)

text \<open>No call clears \<^verbatim>\<open>isDisposed\<close>.\<close>

lemma isDisposed_emit: "isDisposed (emit e s) = isDisposed s"
  by (simp add: emit_def)

lemma isDisposed_log: "isDisposed (log l m s) = isDisposed s"
  by (simp add: log_def emit_def)

lemma isDisposed_setState: "isDisposed (setState st s) = isDisposed s"
  by (simp add: setState_def)

lemma isDisposed_onActivity: "isDisposed (onActivity s) = isDisposed s"
  by (simp add: onActivity_def)

lemma isDisposed_tryPerformAction: "isDisposed (tryPerformAction a s) = isDisposed s"
  using continues_tryPerformAction [of s a] by (simp add: continues_def)

lemma isDisposed_onReadyToPerformNextAction:
  "isDisposed (onReadyToPerformNextAction s) = isDisposed s"
  using continues_onReadyToPerformNextAction [of s] by (simp add: continues_def)

lemmas isDisposed_basic = isDisposed_emit isDisposed_log isDisposed_setState isDisposed_onActivity
  isDisposed_tryPerformAction isDisposed_onReadyToPerformNextAction

lemma isDisposed_onUnsubscribe: "isDisposed (onUnsubscribe force s) = isDisposed s"
  by (simp add: onUnsubscribe_def Let_def isDisposed_basic)

lemma isDisposed_onSubscribe: "isDisposed (state_of (onSubscribe s)) = isDisposed s"
  by (simp add: onSubscribe_def isDisposed_basic)

lemma isDisposed_onModify: "isDisposed (state_of (onModify newArgs options s)) = isDisposed s"
  by (simp add: onModify_def Let_def isDisposed_basic isDisposed_onSubscribe isDisposed_onUnsubscribe
      split: option.split)

lemma isDisposed_reset: "isDisposed (state_of (reset s)) = isDisposed s"
  by (simp add: reset_def isDisposed_basic isDisposed_onSubscribe isDisposed_onUnsubscribe)

lemma isDisposed_processUpdate:
  "isDisposed (state_of (processUpdate parse message type s)) = isDisposed s"
  by (simp add: processUpdate_def isDisposed_basic isDisposed_reset split: option.split)

lemma isDisposed_processSnapshot: "isDisposed (state_of (processSnapshot resp s)) = isDisposed s"
  by (simp add: processSnapshot_def Let_def isDisposed_basic split: option.split prod.split)

lemma isDisposed_onStreamingData:
  "isDisposed (snd (onStreamingData parse message s)) = isDisposed s"
proof -
  have "isDisposed (case processUpdate parse message type t of Returned s3 \<Rightarrow> s3
                    | Threw e s3 \<Rightarrow> log l m s3) = isDisposed t" for type t l m
    using isDisposed_processUpdate [of parse message type t]
    by (cases "processUpdate parse message type t") (simp_all add: isDisposed_log)
  then show ?thesis
    by (simp add: onStreamingData_def Let_def isDisposed_basic)
qed

lemma isDisposed_replayUpdates: "isDisposed (replayUpdates parse updates s) = isDisposed s"
  by (induction updates arbitrary: s) (simp_all add: isDisposed_onStreamingData)

lemma isDisposed_onSubscribeSuccess:
  "isDisposed (onSubscribeSuccess parse capturedId responseData s) = isDisposed s"
proof -
  have "isDisposed (case processSnapshot responseData t of Returned u \<Rightarrow> u
                    | Threw e u \<Rightarrow> log l m u) = isDisposed t" for t l m
    using isDisposed_processSnapshot [of responseData t]
    by (cases "processSnapshot responseData t") (simp_all add: isDisposed_log)
  then show ?thesis
    by (simp add: onSubscribeSuccess_def Let_def isDisposed_basic isDisposed_replayUpdates
        split: option.split)
qed

lemma isDisposed_onSubscribeError_network:
  "isDisposed (onSubscribeError_network resp w s) = isDisposed s"
  by (simp add: onSubscribeError_network_def Let_def isDisposed_basic)

lemma isDisposed_onSubscribeError_format:
  "isDisposed (onSubscribeError_format resp w s) = isDisposed s"
  by (simp add: onSubscribeError_format_def Let_def isDisposed_basic isDisposed_onSubscribeError_network)

lemma isDisposed_onSubscribeError: "isDisposed (onSubscribeError capturedId resp s) = isDisposed s"
  by (simp add: onSubscribeError_def Let_def isDisposed_basic isDisposed_onSubscribeError_format
      cleanUpLeftOverSubscription_def)

lemma isDisposed_run: "isDisposed s \<Longrightarrow> isDisposed (run parse c s)"
  by (cases c)
     (simp_all add: isDisposed_basic isDisposed_onSubscribe isDisposed_onModify isDisposed_onUnsubscribe
        isDisposed_reset dispose_def onConnectionUnavailable_def onConnectionAvailable_def Let_def
        isDisposed_onStreamingData onHeartbeat_def onUnsubscribeByTagPending_def
        onUnsubscribeByTagComplete_def addStateChangedCallback_def removeStateChangedCallback_def
        isDisposed_onSubscribeSuccess isDisposed_onSubscribeError onUnsubscribeSuccess_def
        onUnsubscribeError_def onModifyPatchSuccess_def onModifyPatchError_def
        onNetworkErrorSubscribingTimer_def)

lemma isDisposed_fold_run: "isDisposed s \<Longrightarrow> isDisposed (fold (run parse) calls s)"
  by (induction calls arbitrary: s) (simp_all add: isDisposed_run)

section \<open>Properties of the subscription\<close>

text \<open>
  While the state is SUBSCRIBE_REQUESTED, UNSUBSCRIBE_REQUESTED or PATCH_REQUESTED,
  \<^verbatim>\<open>tryPerformAction\<close> cancels a pending network-error timer and puts the action on the
  queue; it does nothing else: no request, no state change.
\<close>

theorem tryPerformAction_queues_while_requested:
  assumes "currentState s = STATE_SUBSCRIBE_REQUESTED \<or> currentState s = STATE_UNSUBSCRIBE_REQUESTED
     \<or> currentState s = STATE_PATCH_REQUESTED"
  shows "tryPerformAction queuedAction s =
     (if networkErrorSubscribingTimer s
      then s\<lparr>networkErrorSubscribingTimer := False, trace := trace s @ [ClearTimeout],
             queue := enqueue queuedAction (queue s)\<rparr>
      else s\<lparr>queue := enqueue queuedAction (queue s)\<rparr>)"
proof -
  have "isTransitioning (emit ClearTimeout (s\<lparr>networkErrorSubscribingTimer := False\<rparr>))"
    using assms by (intro requested_states_transitioning) (simp add: emit_def)
  moreover have "isTransitioning s"
    using assms by (rule requested_states_transitioning)
  ultimately show ?thesis
    by (simp add: tryPerformAction_def Let_def emit_def)
qed

theorem tryPerformAction_queues_while_requested_witness:
  "currentState exampleRequested = STATE_SUBSCRIBE_REQUESTED
   \<and> tryPerformAction (Unsubscribe False) exampleRequested
       = exampleRequested\<lparr>queue := enqueue (Unsubscribe False) (queue exampleRequested)\<rparr>"
proof -
  have h: "currentState exampleRequested = STATE_SUBSCRIBE_REQUESTED"
    "\<not> networkErrorSubscribingTimer exampleRequested"
    by code_simp+
  show ?thesis
    using tryPerformAction_queues_while_requested [of exampleRequested "Unsubscribe False"] h
    by simp
qed

text \<open>
  Claim C1, at the input where the code departs from it. The claim has every action that
  is requested in state READY_FOR_UNSUBSCRIBE_BY_TAG put on the queue. The subscription
  that has been subscribed and then told \<^verbatim>\<open>onUnsubscribeByTagPending()\<close> is in that state
  (\<^verbatim>\<open>isReadyForUnsubscribeByTag\<close> holds), with an empty queue; a SUBSCRIBE requested
  there is not queued: it is performed at once, which logs "Unanticipated state in
  performAction Subscribe", and the action is lost.
\<close>

theorem ready_for_unsubscribe_by_tag_does_not_queue:
  "currentState exampleSubscribed = STATE_SUBSCRIBED
   \<and> currentState exampleReadyForUnsubscribeByTag = STATE_READY_FOR_UNSUBSCRIBE_BY_TAG
   \<and> isReadyForUnsubscribeByTag exampleReadyForUnsubscribeByTag
   \<and> queue exampleReadyForUnsubscribeByTag = []
   \<and> queue (tryPerformAction Subscribe exampleReadyForUnsubscribeByTag) = []
   \<and> trace (tryPerformAction Subscribe exampleReadyForUnsubscribeByTag)
       = trace exampleReadyForUnsubscribeByTag
           @ [Log LogError ''Unanticipated state in performAction Subscribe'']"
  by code_simp

theorem ready_for_unsubscribe_by_tag_does_not_queue_witness:
  "queue (tryPerformAction Subscribe exampleReadyForUnsubscribeByTag)
     \<noteq> enqueue Subscribe (queue exampleReadyForUnsubscribeByTag)"
  using ready_for_unsubscribe_by_tag_does_not_queue by (simp add: enqueue.simps)

lemma exampleRequested_referenceId: "referenceId exampleRequested = Some ''1''"
  by code_simp

text \<open>
  Claim C2. When the reference id captured with a request differs from the subscription's
  current reference id, each of the six response handlers (subscribe, unsubscribe and
  patch, success and error) leaves the subscription as it is and appends one log entry to
  the trace: no field changes, no callback fires, no request goes out.
\<close>

theorem stale_response_is_ignored:
  assumes "Some capturedId \<noteq> referenceId s"
  shows "(\<exists>m. onSubscribeSuccess parse capturedId responseData s = s\<lparr>trace := trace s @ [Log LogInfo m]\<rparr>)
       \<and> (\<exists>m. onSubscribeError capturedId resp s = s\<lparr>trace := trace s @ [Log LogDebug m]\<rparr>)
       \<and> (\<exists>m. onUnsubscribeSuccess capturedId s = s\<lparr>trace := trace s @ [Log LogDebug m]\<rparr>)
       \<and> (\<exists>m. onUnsubscribeError capturedId s = s\<lparr>trace := trace s @ [Log LogDebug m]\<rparr>)
       \<and> (\<exists>m. onModifyPatchSuccess capturedId s = s\<lparr>trace := trace s @ [Log LogDebug m]\<rparr>)
       \<and> (\<exists>m. onModifyPatchError capturedId s = s\<lparr>trace := trace s @ [Log LogDebug m]\<rparr>)"
  using assms
  by (simp add: onSubscribeSuccess_def onSubscribeError_def onUnsubscribeSuccess_def
      onUnsubscribeError_def onModifyPatchSuccess_def onModifyPatchError_def log_def emit_def)
     blast

theorem stale_response_is_ignored_witness:
  "Some ''0'' \<noteq> referenceId exampleRequested
   \<and> (\<exists>m. onSubscribeSuccess exampleParse ''0'' exampleResponse exampleRequested
            = exampleRequested\<lparr>trace := trace exampleRequested @ [Log LogInfo m]\<rparr>)
   \<and> (\<exists>m. onUnsubscribeSuccess ''0'' exampleRequested
            = exampleRequested\<lparr>trace := trace exampleRequested @ [Log LogDebug m]\<rparr>)"
proof -
  have h: "Some ''0'' \<noteq> referenceId exampleRequested"
    by (simp add: exampleRequested_referenceId)
  show ?thesis
    using h stale_response_is_ignored [OF h, of exampleParse exampleResponse None] by blast
qed

text \<open>
  Claim C3, as the code has it. A subscribe error that carries the duplicate-key message
  and whose captured reference id is not the current one is ignored like every stale
  response: one debug log entry, and no request, so no cleanup DELETE. The cleanup DELETE
  goes out when the captured reference id is the current one; it is the first request of
  the handler and carries \<^verbatim>\<open>currentStreamingContextId\<close> and the captured reference id.
\<close>

theorem stale_duplicate_error_sends_no_cleanup:
  assumes "resp = Some r" and "response r = Some b" and "Message b = Some DUPLICATE_KEY_MESSAGE"
  shows "(Some capturedId \<noteq> referenceId s \<longrightarrow>
            (\<exists>m. onSubscribeError capturedId resp s = s\<lparr>trace := trace s @ [Log LogDebug m]\<rparr>)
            \<and> filter isRequest (trace (onSubscribeError capturedId resp s)) = filter isRequest (trace s))
       \<and> (Some capturedId = referenceId s \<longrightarrow>
            (\<exists>before after.
               trace (onSubscribeError capturedId resp s)
                 = trace s @ before
                     @ Delete (servicePath s) (url s @ ''/{contextId}/{referenceId}'')
                         (currentStreamingContextId s) (Some capturedId) # after
               \<and> filter isRequest before = []))"
proof (intro conjI impI)
  assume stale: "Some capturedId \<noteq> referenceId s"
  then show "\<exists>m. onSubscribeError capturedId resp s = s\<lparr>trace := trace s @ [Log LogDebug m]\<rparr>"
    by (simp add: onSubscribeError_def log_def emit_def) blast
  from stale show "filter isRequest (trace (onSubscribeError capturedId resp s)) = filter isRequest (trace s)"
    by (simp add: onSubscribeError_def log_def emit_def isRequest_def)
next
  assume match: "Some capturedId = referenceId s"
  define s3 where "s3 = cleanUpLeftOverSubscription capturedId
     (log LogError ''A duplicate request occurred subscribing'' (setState STATE_UNSUBSCRIBED s))"
  define before where "before = map (\<lambda>callback. StateChanged callback STATE_UNSUBSCRIBED) (onStateChangedCallbacks s)
     @ [Log LogError ''A duplicate request occurred subscribing'']"
  have t3: "trace s3 = trace s @ before
      @ [Delete (servicePath s) (url s @ ''/{contextId}/{referenceId}'') (currentStreamingContextId s) (Some capturedId)]"
    by (simp add: s3_def before_def cleanUpLeftOverSubscription_def log_def emit_def setState_def)
  have nb: "filter isRequest before = []"
    by (simp add: before_def isRequest_def)
  have "onSubscribeError capturedId resp s = tryPerformAction Subscribe s3
      \<or> onSubscribeError capturedId resp s = onSubscribeError_format resp (peekAction_and_UNSUBSCRIBE (queue s)) s3"
    using match assms by (simp add: onSubscribeError_def Let_def s3_def)
  then have "grows s3 (onSubscribeError capturedId resp s)"
    using continues_grows [OF continues_tryPerformAction] grows_onSubscribeError_format by auto
  then obtain after where "trace (onSubscribeError capturedId resp s) = trace s3 @ after"
    by (auto simp: grows_def)
  with t3 nb show "\<exists>before after.
               trace (onSubscribeError capturedId resp s)
                 = trace s @ before
                     @ Delete (servicePath s) (url s @ ''/{contextId}/{referenceId}'')
                         (currentStreamingContextId s) (Some capturedId) # after
               \<and> filter isRequest before = []"
    by auto
qed

theorem stale_duplicate_error_sends_no_cleanup_witness:
  "Some ''0'' \<noteq> referenceId exampleRequested \<and> Some ''1'' = referenceId exampleRequested
   \<and> filter isRequest (trace (onSubscribeError ''0'' exampleDuplicate exampleRequested))
       = filter isRequest (trace exampleRequested)
   \<and> (\<exists>before after.
         trace (onSubscribeError ''1'' exampleDuplicate exampleRequested)
           = trace exampleRequested @ before
               @ Delete ''sp'' ''/test/{contextId}/{referenceId}'' (Some ''ctx'') (Some ''1'') # after
         \<and> filter isRequest before = [])"
proof -
  have r: "referenceId exampleRequested = Some ''1''" "servicePath exampleRequested = ''sp''"
    "url exampleRequested = ''/test''" "currentStreamingContextId exampleRequested = Some ''ctx''"
    by code_simp+
  show ?thesis
    using stale_duplicate_error_sends_no_cleanup [of exampleDuplicate _ _ "''0''" exampleRequested]
      stale_duplicate_error_sends_no_cleanup [of exampleDuplicate _ _ "''1''" exampleRequested] r
    by (simp add: exampleDuplicate_def)
qed

text \<open>
  Claim C3 as stated has the stale duplicate-key error still issue a cleanup DELETE. With
  the POST of reference id 1 out, the duplicate-key rejection of a request with reference
  id 0 adds a log entry and nothing else: the only request of the trace is the POST.
\<close>

theorem stale_duplicate_error_counterexample:
  "Some ''0'' \<noteq> referenceId exampleRequested
   \<and> trace (onSubscribeError ''0'' exampleDuplicate exampleRequested)
       = trace exampleRequested
           @ [Log LogDebug ''Received an error response for subscribing a subscription that has afterwards been reset - ignoring'']
   \<and> filter isRequest (trace (onSubscribeError ''0'' exampleDuplicate exampleRequested))
       = [Post ''sp'' ''/test?$top=5''
            [(''Format'', JStr ''application/x-protobuf''), (''RefreshRate'', JNum 1000),
             (''ContextId'', JStr ''ctx''), (''ReferenceId'', JStr ''1''),
             (''KnownSchemas'', JStrings [])] None]"
  by code_simp

text \<open>
  Claim C5, as the code has it. Once \<^verbatim>\<open>dispose()\<close> has been called, whatever calls and
  callbacks follow, \<^verbatim>\<open>isDisposed\<close> stays set and \<^verbatim>\<open>onSubscribe\<close> and \<^verbatim>\<open>onModify\<close> throw
  before they do anything: the subscription is unchanged and no request goes out. The
  other methods and the response handlers do not test the flag.
\<close>

theorem after_dispose_subscribe_and_modify_fail:
  "isDisposed (fold (run parse) calls (dispose s))
   \<and> onSubscribe (fold (run parse) calls (dispose s))
       = Threw DisposedError (fold (run parse) calls (dispose s))
   \<and> onModify newArgs options (fold (run parse) calls (dispose s))
       = Threw DisposedError (fold (run parse) calls (dispose s))"
proof -
  have "isDisposed (fold (run parse) calls (dispose s))"
    by (rule isDisposed_fold_run) (simp add: dispose_def)
  then show ?thesis
    by (simp add: onSubscribe_def onModify_def)
qed

theorem after_dispose_subscribe_and_modify_fail_witness:
  "onSubscribe (fold (run exampleParse) [CallOnUnsubscribe False, UnsubscribeSuccess ''1'']
                  (dispose exampleSubscribed))
     = Threw DisposedError
         (fold (run exampleParse) [CallOnUnsubscribe False, UnsubscribeSuccess ''1'']
            (dispose exampleSubscribed))"
  using after_dispose_subscribe_and_modify_fail
    [of exampleParse "[CallOnUnsubscribe False, UnsubscribeSuccess ''1'']" exampleSubscribed]
  by blast

text \<open>
  Claim C5 as stated has no request after \<^verbatim>\<open>dispose()\<close>. A subscribed subscription that
  is disposed and then told \<^verbatim>\<open>onUnsubscribe()\<close> logs a warning and issues the DELETE: the
  requests of the trace are the POST before \<^verbatim>\<open>dispose()\<close> and the DELETE after it.
\<close>

theorem request_after_dispose_counterexample:
  "filter isRequest (trace (dispose exampleSubscribed))
     = [Post ''sp'' ''/test?$top=5''
          [(''Format'', JStr ''application/x-protobuf''), (''RefreshRate'', JNum 1000),
           (''ContextId'', JStr ''ctx''), (''ReferenceId'', JStr ''1''),
           (''KnownSchemas'', JStrings [])] None]
   \<and> filter isRequest (trace (onUnsubscribe False (dispose exampleSubscribed)))
     = [Post ''sp'' ''/test?$top=5''
          [(''Format'', JStr ''application/x-protobuf''), (''RefreshRate'', JNum 1000),
           (''ContextId'', JStr ''ctx''), (''ReferenceId'', JStr ''1''),
           (''KnownSchemas'', JStrings [])] None,
        Delete ''sp'' ''/test/{contextId}/{referenceId}'' (Some ''ctx'') (Some ''1'')]"
  by code_simp

text \<open>
  Claim C7, as the code has it. A subscribe error with the current reference id, the error
  code UnsupportedSubscriptionFormat and the format protobuf, that is not a duplicate-key
  error with no unsubscribe at the head of the queue (the duplicate branch comes first and
  returns), sets the format of the subscription data to JSON and replaces the parser with
  the JSON parser; and when the head of the queue is not an unsubscribe, the handler ends
  by requesting SUBSCRIBE again through \<^verbatim>\<open>tryPerformAction\<close>, without a call of
  \<^verbatim>\<open>onError\<close>.
\<close>

theorem unsupported_format_falls_back_to_json:
  assumes "referenceId s = Some capturedId"
    and "resp = Some r" and "response r = Some b"
    and "ErrorCode b = Some ERROR_UNSUPPORTED_FORMAT"
    and "get_prop (objects s (subscriptionData s)) ''Format'' = JStr FORMAT_PROTOBUF"
    and "subscriptionData s < nextObject s"
    and "Message b \<noteq> Some DUPLICATE_KEY_MESSAGE \<or> peekAction (queue s) = Some ACTION_UNSUBSCRIBE"
  shows "get_prop (objects (onSubscribeError capturedId resp s)
                     (subscriptionData (onSubscribeError capturedId resp s))) ''Format''
           = JStr FORMAT_JSON
       \<and> parser (onSubscribeError capturedId resp s)
           = getParser (JStr FORMAT_JSON) (servicePath s) (url s)
       \<and> (peekAction (queue s) \<noteq> Some ACTION_UNSUBSCRIBE \<longrightarrow>
            onSubscribeError capturedId resp s
              = tryPerformAction Subscribe
                  ((log LogWarn ''Protobuf is not supported, falling back to JSON''
                      (setState STATE_UNSUBSCRIBED s))
                   \<lparr>objects := (objects s)
                      (subscriptionData s :=
                         set_prop ''Format'' (JStr FORMAT_JSON) (objects s (subscriptionData s))),
                    parser := getParser (JStr FORMAT_JSON) (servicePath s) (url s)\<rparr>)
            \<and> filter isOnError (trace (onSubscribeError capturedId resp s))
                = filter isOnError (trace s))"
proof -
  define fallback where "fallback t =
     (log LogWarn ''Protobuf is not supported, falling back to JSON'' t)
       \<lparr>objects := (objects s)
          (subscriptionData s :=
             set_prop ''Format'' (JStr FORMAT_JSON) (objects s (subscriptionData s))),
        parser := getParser (JStr FORMAT_JSON) (servicePath s) (url s)\<rparr>" for t
  define s1 where "s1 = setState STATE_UNSUBSCRIBED s"
  define s3 where "s3 = cleanUpLeftOverSubscription capturedId
     (log LogError ''A duplicate request occurred subscribing'' s1)"
  define will where "will = (peekAction (queue s) = Some ACTION_UNSUBSCRIBE)"
  have frame1: "objects s1 = objects s" "subscriptionData s1 = subscriptionData s"
    "servicePath s1 = servicePath s" "url s1 = url s" "nextObject s1 = nextObject s"
    "filter isOnError (trace s1) = filter isOnError (trace s)"
    by (simp_all add: s1_def setState_def isOnError_def)
  have frame3: "objects s3 = objects s" "subscriptionData s3 = subscriptionData s"
    "servicePath s3 = servicePath s" "url s3 = url s" "nextObject s3 = nextObject s"
    by (simp_all add: s3_def s1_def setState_def cleanUpLeftOverSubscription_def log_def emit_def)
  have format1: "onSubscribeError_format resp w s1
      = (if \<not> w then tryPerformAction Subscribe (fallback s1)
         else onSubscribeError_network resp w (fallback s1))" for w
    using assms(2-5) frame1
    by (simp add: onSubscribeError_format_def Let_def fallback_def log_def emit_def)
  have format3: "onSubscribeError_format resp True s3 = onSubscribeError_network resp True (fallback s3)"
    using assms(2-5) frame3
    by (simp add: onSubscribeError_format_def Let_def fallback_def log_def emit_def)
  have result: "onSubscribeError capturedId resp s
      = (if Message b = Some DUPLICATE_KEY_MESSAGE
         then onSubscribeError_network resp True (fallback s3)
         else if \<not> will then tryPerformAction Subscribe (fallback s1)
         else onSubscribeError_network resp True (fallback s1))"
    using assms(1-3,7) format1 format3
    by (auto simp: onSubscribeError_def Let_def peekAction_and_UNSUBSCRIBE_iff will_def
        s1_def [symmetric] s3_def [symmetric])
  have fb: "parser (fallback t) = getParser (JStr FORMAT_JSON) (servicePath s) (url s)"
    "objects (fallback t) (subscriptionData s) = set_prop ''Format'' (JStr FORMAT_JSON) (objects s (subscriptionData s))"
    "subscriptionData (fallback t) = subscriptionData t" "nextObject (fallback t) = nextObject t"
    "trace (fallback t) = trace t @ [Log LogWarn ''Protobuf is not supported, falling back to JSON'']"
    for t
    by (simp_all add: fallback_def log_def emit_def)
  have keep: "parser t' = getParser (JStr FORMAT_JSON) (servicePath s) (url s)
      \<and> get_prop (objects t' (subscriptionData t')) ''Format'' = JStr FORMAT_JSON"
    if "continues (fallback t) t'" and "subscriptionData t = subscriptionData s"
      and "nextObject t = nextObject s" for t t'
    using that assms(6) fb [of t] by (simp add: continues_def get_prop_set_prop)
  have c1: "continues (fallback s1) (tryPerformAction Subscribe (fallback s1))"
    "continues (fallback s1) (onSubscribeError_network resp True (fallback s1))"
    "continues (fallback s3) (onSubscribeError_network resp True (fallback s3))"
    by (rule continues_tryPerformAction continues_onSubscribeError_network_unsubscribing)+
  have first: "parser (onSubscribeError capturedId resp s) = getParser (JStr FORMAT_JSON) (servicePath s) (url s)
      \<and> get_prop (objects (onSubscribeError capturedId resp s)
                     (subscriptionData (onSubscribeError capturedId resp s))) ''Format''
           = JStr FORMAT_JSON"
    unfolding result
    using keep [OF c1(1)] keep [OF c1(2)] keep [OF c1(3)] frame1 frame3 by simp
  have second: "onSubscribeError capturedId resp s = tryPerformAction Subscribe (fallback s1)
      \<and> filter isOnError (trace (onSubscribeError capturedId resp s)) = filter isOnError (trace s)"
    if "\<not> will"
  proof -
    have eq: "onSubscribeError capturedId resp s = tryPerformAction Subscribe (fallback s1)"
      using that assms(7) by (simp add: result will_def)
    have "filter isOnError (trace (tryPerformAction Subscribe (fallback s1)))
        = filter isOnError (trace (fallback s1))"
      by (rule continues_no_OnError [OF c1(1)])
    also have "\<dots> = filter isOnError (trace s)"
      using frame1(6) by (simp add: fb isOnError_def)
    finally show ?thesis using eq by simp
  qed
  show ?thesis
    using first second unfolding will_def fallback_def s1_def by auto
qed

theorem unsupported_format_falls_back_to_json_witness:
  "referenceId exampleRequested = Some ''1''
   \<and> get_prop (objects exampleRequested (subscriptionData exampleRequested)) ''Format''
       = JStr FORMAT_PROTOBUF
   \<and> subscriptionData exampleRequested < nextObject exampleRequested
   \<and> peekAction (queue exampleRequested) \<noteq> Some ACTION_UNSUBSCRIBE
   \<and> get_prop (objects (onSubscribeError ''1'' exampleUnsupported exampleRequested)
                 (subscriptionData (onSubscribeError ''1'' exampleUnsupported exampleRequested)))
        ''Format'' = JStr FORMAT_JSON
   \<and> parser (onSubscribeError ''1'' exampleUnsupported exampleRequested)
       = getParser (JStr FORMAT_JSON) ''sp'' ''/test''
   \<and> filter isOnError (trace (onSubscribeError ''1'' exampleUnsupported exampleRequested))
       = filter isOnError (trace exampleRequested)"
proof -
  have h: "referenceId exampleRequested = Some ''1''"
    "get_prop (objects exampleRequested (subscriptionData exampleRequested)) ''Format''
       = JStr FORMAT_PROTOBUF"
    "subscriptionData exampleRequested < nextObject exampleRequested"
    "peekAction (queue exampleRequested) \<noteq> Some ACTION_UNSUBSCRIBE"
    "servicePath exampleRequested = ''sp''" "url exampleRequested = ''/test''"
    by code_simp+
  define b where "b = \<lparr>Message = None, ErrorCode = Some ERROR_UNSUPPORTED_FORMAT\<rparr>"
  define r where "r = \<lparr>isNetworkError = False, response = Some b\<rparr>"
  have e: "exampleUnsupported = Some r" "response r = Some b"
    "ErrorCode b = Some ERROR_UNSUPPORTED_FORMAT"
    "Message b \<noteq> Some DUPLICATE_KEY_MESSAGE \<or> peekAction (queue exampleRequested) = Some ACTION_UNSUBSCRIBE"
    by (simp_all add: exampleUnsupported_def r_def b_def)
  note t = unsupported_format_falls_back_to_json [OF h(1) e(1) e(2) e(3) h(2) h(3) e(4)]
  from t have p: "get_prop (objects (onSubscribeError ''1'' exampleUnsupported exampleRequested)
                 (subscriptionData (onSubscribeError ''1'' exampleUnsupported exampleRequested)))
        ''Format'' = JStr FORMAT_JSON"
    "parser (onSubscribeError ''1'' exampleUnsupported exampleRequested)
       = getParser (JStr FORMAT_JSON) (servicePath exampleRequested) (url exampleRequested)"
    by blast+
  from t h(4) have q: "filter isOnError (trace (onSubscribeError ''1'' exampleUnsupported exampleRequested))
       = filter isOnError (trace exampleRequested)"
    by blast
  show ?thesis
    using p q h by simp
qed

text \<open>
  Claim C7 as stated holds of every response with that error code. A response that also
  carries the duplicate-key message, with no unsubscribe queued, is handled by the
  duplicate branch, which returns before the fallback: format and parser stay protobuf.
\<close>

theorem unsupported_format_with_duplicate_counterexample:
  "referenceId exampleRequested = Some ''1''
   \<and> get_prop (objects exampleRequested (subscriptionData exampleRequested)) ''Format''
       = JStr FORMAT_PROTOBUF
   \<and> get_prop (objects (onSubscribeError ''1'' exampleUnsupportedDuplicate exampleRequested)
                 (subscriptionData (onSubscribeError ''1'' exampleUnsupportedDuplicate exampleRequested)))
        ''Format'' = JStr FORMAT_PROTOBUF
   \<and> parserFormat (parser (onSubscribeError ''1'' exampleUnsupportedDuplicate exampleRequested))
       = FORMAT_PROTOBUF"
  by code_simp

text \<open>
  Claim C8, as the code has it, for a message that the parser accepts and a subscription
  with an \<^verbatim>\<open>onUpdate\<close> callback. In state SUBSCRIBED or PATCH_REQUESTED the message is
  parsed and delivered as a DELTA update. In a state outside UNSUBSCRIBE_REQUESTED,
  UNSUBSCRIBED, SUBSCRIBE_REQUESTED, SUBSCRIBED and PATCH_REQUESTED an error is logged and
  then the message is parsed and delivered in the same way: the \<^verbatim>\<open>default\<close> branch of the
  switch does not return.
\<close>

theorem onStreamingData_delivers:
  assumes "parse (parser s) (get_prop message ''Data'') (schemaName s) = Some parsed"
    and "onUpdate s"
  shows "(currentState s = STATE_SUBSCRIBED \<or> currentState s = STATE_PATCH_REQUESTED \<longrightarrow>
            onStreamingData parse message s =
              (None, emit (OnUpdateMessage (extend_obj [] [message, [(''Data'', parsed)]]) UPDATE_TYPE_DELTA)
                       (onActivity s)))
       \<and> (currentState s \<noteq> STATE_UNSUBSCRIBE_REQUESTED \<and> currentState s \<noteq> STATE_UNSUBSCRIBED
            \<and> currentState s \<noteq> STATE_SUBSCRIBE_REQUESTED \<and> currentState s \<noteq> STATE_SUBSCRIBED
            \<and> currentState s \<noteq> STATE_PATCH_REQUESTED \<longrightarrow>
            onStreamingData parse message s =
              (None, emit (OnUpdateMessage (extend_obj [] [message, [(''Data'', parsed)]]) UPDATE_TYPE_DELTA)
                       (log LogError ''Unanticipated state onStreamingData'' (onActivity s))))"
  using assms
  by (auto simp: onStreamingData_def processUpdate_def onActivity_def Let_def log_def emit_def
      STATE_SUBSCRIBED_def STATE_PATCH_REQUESTED_def STATE_UNSUBSCRIBE_REQUESTED_def
      STATE_UNSUBSCRIBED_def STATE_SUBSCRIBE_REQUESTED_def)

theorem onStreamingData_delivers_witness:
  "onUpdate exampleSubscribed \<and> currentState exampleSubscribed = STATE_SUBSCRIBED
   \<and> onStreamingData exampleParse exampleMessage exampleSubscribed
       = (None, emit (OnUpdateMessage exampleMessage UPDATE_TYPE_DELTA) (onActivity exampleSubscribed))
   \<and> onStreamingData exampleParse exampleMessage exampleReadyForUnsubscribeByTag
       = (None, emit (OnUpdateMessage exampleMessage UPDATE_TYPE_DELTA)
                  (log LogError ''Unanticipated state onStreamingData''
                     (onActivity exampleReadyForUnsubscribeByTag)))"
proof -
  have p: "exampleParse (parser s) (get_prop exampleMessage ''Data'') (schemaName s) = Some (JOpaque ''delta'')" for s :: subscription
    by (simp add: exampleParse_def exampleMessage_def get_prop_def)
  have u: "onUpdate exampleSubscribed" "onUpdate exampleReadyForUnsubscribeByTag"
    by code_simp+
  have st: "currentState exampleSubscribed = STATE_SUBSCRIBED"
    "currentState exampleReadyForUnsubscribeByTag = None"
    by code_simp+
  have e: "extend_obj [] [exampleMessage, [(''Data'', JOpaque ''delta'')]] = exampleMessage"
    by code_simp
  show ?thesis
    using onStreamingData_delivers [where parse = exampleParse and s = exampleSubscribed
        and message = exampleMessage and parsed = "JOpaque ''delta''", OF p u(1)]
      onStreamingData_delivers [where parse = exampleParse and s = exampleReadyForUnsubscribeByTag
        and message = exampleMessage and parsed = "JOpaque ''delta''", OF p u(2)]
      u st e
    by (simp add: STATE_SUBSCRIBED_def STATE_PATCH_REQUESTED_def STATE_UNSUBSCRIBE_REQUESTED_def
      STATE_UNSUBSCRIBED_def STATE_SUBSCRIBE_REQUESTED_def)
qed

text \<open>
  Claim C8 as stated has the message dropped in any other state. In the state that
  \<^verbatim>\<open>onUnsubscribeByTagPending()\<close> leaves, which is none of the five, the error is logged
  and the message reaches \<^verbatim>\<open>onUpdate\<close> as a DELTA.
\<close>

theorem onStreamingData_other_state_counterexample:
  "currentState exampleReadyForUnsubscribeByTag \<noteq> STATE_UNSUBSCRIBE_REQUESTED
   \<and> currentState exampleReadyForUnsubscribeByTag \<noteq> STATE_UNSUBSCRIBED
   \<and> currentState exampleReadyForUnsubscribeByTag \<noteq> STATE_SUBSCRIBE_REQUESTED
   \<and> currentState exampleReadyForUnsubscribeByTag \<noteq> STATE_SUBSCRIBED
   \<and> currentState exampleReadyForUnsubscribeByTag \<noteq> STATE_PATCH_REQUESTED
   \<and> trace (snd (onStreamingData exampleParse exampleMessage exampleReadyForUnsubscribeByTag))
       = trace exampleReadyForUnsubscribeByTag
           @ [Log LogError ''Unanticipated state onStreamingData'',
              OnUpdateMessage exampleMessage 2]"
  by code_simp

text \<open>
  Claim C10. \<^verbatim>\<open>subscribe\<close> does not change the object that \<^verbatim>\<open>subscriptionData\<close> refers
  to: after any number of subscribes the reference and the object are as before, \<^verbatim>\<open>Top\<close>
  included; each further subscribe posts to the url that \<^verbatim>\<open>getSubscribeUrl\<close> computes from
  that object, which ends in \<^verbatim>\<open>?$top=\<close> and the value of \<^verbatim>\<open>Top\<close> whenever \<^verbatim>\<open>Top\<close> is
  truthy, and the posted body has no \<^verbatim>\<open>Top\<close>. The reference is to an object that exists.
\<close>

theorem subscribe_keeps_subscriptionData:
  assumes "subscriptionData s < nextObject s"
  shows "subscriptionData ((subscribe ^^ n) s) = subscriptionData s
       \<and> objects ((subscribe ^^ n) s) (subscriptionData s) = objects s (subscriptionData s)
       \<and> (\<exists>body hdrs. last (trace ((subscribe ^^ Suc n) s))
             = Post (servicePath s) (getSubscribeUrl (url s) (objects s (subscriptionData s))) body hdrs
             \<and> \<not> hasOwnProperty body ''Top'')
       \<and> (truthy (get_prop (objects s (subscriptionData s)) ''Top'') \<longrightarrow>
             getSubscribeUrl (url s) (objects s (subscriptionData s))
               = url s @ ''?$top='' @ ToString (get_prop (objects s (subscriptionData s)) ''Top''))"
proof -
  have c: "continues s ((subscribe ^^ n) s)"
    by (rule continues_subscribe_funpow)
  then have same: "subscriptionData ((subscribe ^^ n) s) = subscriptionData s"
    "objects ((subscribe ^^ n) s) (subscriptionData s) = objects s (subscriptionData s)"
    "servicePath ((subscribe ^^ n) s) = servicePath s" "url ((subscribe ^^ n) s) = url s"
    using assms by (simp_all add: continues_def)
  have "\<exists>body hdrs. last (trace (subscribe ((subscribe ^^ n) s)))
      = Post (servicePath s) (getSubscribeUrl (url s) (objects s (subscriptionData s))) body hdrs
      \<and> \<not> hasOwnProperty body ''Top''"
    using subscribe_Post [of "(subscribe ^^ n) s"] same by simp
  with same show ?thesis
    by (simp add: getSubscribeUrl_def)
qed

theorem subscribe_keeps_subscriptionData_witness:
  "subscriptionData exampleNew < nextObject exampleNew
   \<and> objects ((subscribe ^^ 2) exampleNew) (subscriptionData exampleNew)
       = [(''Format'', JStr ''application/x-protobuf''), (''Top'', JNum 5), (''RefreshRate'', JNum 1000)]
   \<and> (\<exists>body hdrs. last (trace ((subscribe ^^ 3) exampleNew)) = Post ''sp'' ''/test?$top=5'' body hdrs
         \<and> \<not> hasOwnProperty body ''Top'')"
proof -
  have h: "subscriptionData exampleNew < nextObject exampleNew"
    by code_simp
  have o: "objects exampleNew (subscriptionData exampleNew)
       = [(''Format'', JStr ''application/x-protobuf''), (''Top'', JNum 5), (''RefreshRate'', JNum 1000)]"
    by code_simp
  have u: "getSubscribeUrl (url exampleNew) (objects exampleNew (subscriptionData exampleNew)) = ''/test?$top=5''"
    "servicePath exampleNew = ''sp''"
    by code_simp+
  show ?thesis
    using subscribe_keeps_subscriptionData [OF h, of 2] h o u
    by (simp add: numeral_2_eq_2 numeral_3_eq_3)
qed

end
